theory Spec2Isabelle
  imports Main "HOL-Library.Word" "HOL-Library.AList" "HOL-Library.Code_Target_Nat"
begin

unbundle bit_operations_syntax

section \<open>Data model\<close>

text \<open>
  Bytes of a \<^verbatim>\<open>Uint8Array\<close> are 8-bit words. JavaScript numbers are modelled as
  unbounded integers: fractions, NaN and the infinities are outside this model, and the
  32-bit coercion of the bitwise operators is the identity on every operand that reaches
  them below (versions inside 0..1023 and byte values).
\<close>

type_synonym byte = "8 word"

text \<open>
  JSON-like JavaScript values, and dates (milliseconds since the epoch). An object is its
  list of own properties, in order.
\<close>

datatype jsval =
    JUndefined
  | JNull
  | JBool bool
  | JNum int
  | JStr string
  | JArr "jsval list"
  | JObj "(string \<times> jsval) list"
  | JDate int

text \<open>
  The error classes of \<^verbatim>\<open>errors.ts\<close>, the plain \<^verbatim>\<open>Error\<close> thrown by the source
  (\<open>GenericError\<close>), zod's own error, and any exception raised inside another external
  library (\<open>ExternalError\<close>). The optional \<^verbatim>\<open>cause\<close> is not kept.
\<close>

datatype error =
    ValidationError string
  | VersionMismatchError string
  | DecodingError string
  | CompressionError string
  | GenericError string
  | ZodError string
  | ExternalError string

text \<open>
  The zod schema classes the source inspects with \<^verbatim>\<open>instanceof\<close>. The first argument
  of every constructor is the identity of the schema object (what the \<^verbatim>\<open>WeakSet\<close> of
  visited schemas compares); a \<open>ZodLazy\<close> carries the schema its getter returns;
  \<open>ZodNumber\<close> carries the kinds of its checks; \<open>ZodOther\<close> is any other zod class,
  with its constructor name.
\<close>

datatype zod =
    ZodString nat
  | ZodNumber nat "string list"
  | ZodBoolean nat
  | ZodBigInt nat
  | ZodEnum nat "string list"
  | ZodLiteral nat jsval
  | ZodObject nat "(string \<times> zod) list"
  | ZodArray nat zod
  | ZodOptional nat zod
  | ZodNullable nat zod
  | ZodDefault nat zod
  | ZodUnion nat "zod list"
  | ZodDiscriminatedUnion nat "zod list"
  | ZodIntersection nat zod zod
  | ZodRecord nat zod zod
  | ZodMap nat zod zod
  | ZodTuple nat "zod list"
  | ZodEffects nat zod
  | ZodPipeline nat zod zod
  | ZodLazy nat zod
  | ZodOther nat string

fun oid :: "zod \<Rightarrow> nat" where
  "oid (ZodString i) = i"
| "oid (ZodNumber i _) = i"
| "oid (ZodBoolean i) = i"
| "oid (ZodBigInt i) = i"
| "oid (ZodEnum i _) = i"
| "oid (ZodLiteral i _) = i"
| "oid (ZodObject i _) = i"
| "oid (ZodArray i _) = i"
| "oid (ZodOptional i _) = i"
| "oid (ZodNullable i _) = i"
| "oid (ZodDefault i _) = i"
| "oid (ZodUnion i _) = i"
| "oid (ZodDiscriminatedUnion i _) = i"
| "oid (ZodIntersection i _ _) = i"
| "oid (ZodRecord i _ _) = i"
| "oid (ZodMap i _ _) = i"
| "oid (ZodTuple i _) = i"
| "oid (ZodEffects i _) = i"
| "oid (ZodPipeline i _ _) = i"
| "oid (ZodLazy i _) = i"
| "oid (ZodOther i _) = i"

section \<open>validation.ts\<close>

definition RESERVED_FIELD :: string where
  "RESERVED_FIELD = ''_encodedStateVersion''"

text \<open>
  \<^verbatim>\<open>hasReservedField(schema, visited)\<close>: the visited set is threaded through and
  returned. \<open>hasReservedField_node\<close> is the body after the schema has been added to the
  set, \<open>hasReservedField_shape\<close> the \<^verbatim>\<open>for (const key in shape)\<close> loop, and
  \<open>hasReservedField_some\<close> the short-circuiting \<^verbatim>\<open>Array.some\<close>.
\<close>

fun hasReservedField :: "zod \<Rightarrow> nat set \<Rightarrow> bool \<times> nat set"
  and hasReservedField_node :: "zod \<Rightarrow> nat set \<Rightarrow> bool \<times> nat set"
  and hasReservedField_shape :: "(string \<times> zod) list \<Rightarrow> nat set \<Rightarrow> bool \<times> nat set"
  and hasReservedField_some :: "zod list \<Rightarrow> nat set \<Rightarrow> bool \<times> nat set"
where
  "hasReservedField schema visited =
     (if oid schema \<in> visited then (False, visited)
      else hasReservedField_node schema (insert (oid schema) visited))"
| "hasReservedField_node (ZodObject _ shape) visited =
     (if RESERVED_FIELD \<in> set (map fst shape) then (True, visited)
      else hasReservedField_shape shape visited)"
| "hasReservedField_node (ZodArray _ element) visited = hasReservedField element visited"
| "hasReservedField_node (ZodOptional _ inner) visited = hasReservedField inner visited"
| "hasReservedField_node (ZodNullable _ inner) visited = hasReservedField inner visited"
| "hasReservedField_node (ZodDefault _ inner) visited = hasReservedField inner visited"
| "hasReservedField_node (ZodUnion _ options) visited = hasReservedField_some options visited"
| "hasReservedField_node (ZodDiscriminatedUnion _ options) visited =
     hasReservedField_some options visited"
| "hasReservedField_node (ZodIntersection _ left right) visited =
     (case hasReservedField left visited of
        (True, visited') \<Rightarrow> (True, visited')
      | (False, visited') \<Rightarrow> hasReservedField right visited')"
| "hasReservedField_node (ZodRecord _ keySchema valueSchema) visited =
     hasReservedField valueSchema visited"
| "hasReservedField_node (ZodMap _ keyType valueType) visited =
     (case hasReservedField keyType visited of
        (True, visited') \<Rightarrow> (True, visited')
      | (False, visited') \<Rightarrow> hasReservedField valueType visited')"
| "hasReservedField_node (ZodTuple _ items) visited = hasReservedField_some items visited"
| "hasReservedField_node (ZodEffects _ inner) visited = hasReservedField inner visited"
| "hasReservedField_node (ZodPipeline _ inp out) visited =
     (case hasReservedField inp visited of
        (True, visited') \<Rightarrow> (True, visited')
      | (False, visited') \<Rightarrow> hasReservedField out visited')"
| "hasReservedField_node (ZodLazy _ getter) visited = hasReservedField getter visited"
| "hasReservedField_node _ visited = (False, visited)"
| "hasReservedField_shape [] visited = (False, visited)"
| "hasReservedField_shape ((key, field) # rest) visited =
     (case hasReservedField field visited of
        (True, visited') \<Rightarrow> (True, visited')
      | (False, visited') \<Rightarrow> hasReservedField_shape rest visited')"
| "hasReservedField_some [] visited = (False, visited)"
| "hasReservedField_some (option # rest) visited =
     (case hasReservedField option visited of
        (True, visited') \<Rightarrow> (True, visited')
      | (False, visited') \<Rightarrow> hasReservedField_some rest visited')"

definition validateSchema :: "zod \<Rightarrow> error + unit" where
  "validateSchema schema =
     (if fst (hasReservedField schema {})
      then Inl (ValidationError (''Field name '' @ [CHR 0x22] @ RESERVED_FIELD @ [CHR 0x22]
                  @ '' is reserved and cannot be used in schemas''))
      else Inr ())"



section \<open>Schemas that contain the reserved field\<close>

text \<open>
  The claim's words, without the visited set: a field literally named with the reserved
  identifier, at any nesting depth, inside nested objects, arrays, optionals, nullables,
  defaults, unions, discriminated unions, intersections, records (their value schema),
  maps (key and value), tuples (their items), effects, pipelines and lazy schemas.
\<close>

fun containsReservedField :: "zod \<Rightarrow> bool"
  and containsReservedField_shape :: "(string \<times> zod) list \<Rightarrow> bool"
  and containsReservedField_any :: "zod list \<Rightarrow> bool"
where
  "containsReservedField (ZodObject _ shape) =
     (RESERVED_FIELD \<in> set (map fst shape) \<or> containsReservedField_shape shape)"
| "containsReservedField (ZodArray _ element) = containsReservedField element"
| "containsReservedField (ZodOptional _ inner) = containsReservedField inner"
| "containsReservedField (ZodNullable _ inner) = containsReservedField inner"
| "containsReservedField (ZodDefault _ inner) = containsReservedField inner"
| "containsReservedField (ZodUnion _ options) = containsReservedField_any options"
| "containsReservedField (ZodDiscriminatedUnion _ options) = containsReservedField_any options"
| "containsReservedField (ZodIntersection _ left right) =
     (containsReservedField left \<or> containsReservedField right)"
| "containsReservedField (ZodRecord _ keySchema valueSchema) = containsReservedField valueSchema"
| "containsReservedField (ZodMap _ keyType valueType) =
     (containsReservedField keyType \<or> containsReservedField valueType)"
| "containsReservedField (ZodTuple _ items) = containsReservedField_any items"
| "containsReservedField (ZodEffects _ inner) = containsReservedField inner"
| "containsReservedField (ZodPipeline _ inp out) =
     (containsReservedField inp \<or> containsReservedField out)"
| "containsReservedField (ZodLazy _ getter) = containsReservedField getter"
| "containsReservedField _ = False"
| "containsReservedField_shape [] = False"
| "containsReservedField_shape ((key, field) # rest) =
     (containsReservedField field \<or> containsReservedField_shape rest)"
| "containsReservedField_any [] = False"
| "containsReservedField_any (option # rest) =
     (containsReservedField option \<or> containsReservedField_any rest)"

text \<open>All schema objects of a schema: the schema itself first, then those below it.\<close>

fun subschemas :: "zod \<Rightarrow> zod list"
  and subschemas_shape :: "(string \<times> zod) list \<Rightarrow> zod list"
  and subschemas_list :: "zod list \<Rightarrow> zod list"
where
  "subschemas (ZodObject i shape) = ZodObject i shape # subschemas_shape shape"
| "subschemas (ZodArray i element) = ZodArray i element # subschemas element"
| "subschemas (ZodOptional i inner) = ZodOptional i inner # subschemas inner"
| "subschemas (ZodNullable i inner) = ZodNullable i inner # subschemas inner"
| "subschemas (ZodDefault i inner) = ZodDefault i inner # subschemas inner"
| "subschemas (ZodUnion i options) = ZodUnion i options # subschemas_list options"
| "subschemas (ZodDiscriminatedUnion i options) =
     ZodDiscriminatedUnion i options # subschemas_list options"
| "subschemas (ZodIntersection i left right) =
     ZodIntersection i left right # subschemas left @ subschemas right"
| "subschemas (ZodRecord i keySchema valueSchema) =
     ZodRecord i keySchema valueSchema # subschemas keySchema @ subschemas valueSchema"
| "subschemas (ZodMap i keyType valueType) =
     ZodMap i keyType valueType # subschemas keyType @ subschemas valueType"
| "subschemas (ZodTuple i items) = ZodTuple i items # subschemas_list items"
| "subschemas (ZodEffects i inner) = ZodEffects i inner # subschemas inner"
| "subschemas (ZodPipeline i inp out) = ZodPipeline i inp out # subschemas inp @ subschemas out"
| "subschemas (ZodLazy i getter) = ZodLazy i getter # subschemas getter"
| "subschemas schema = [schema]"
| "subschemas_shape [] = []"
| "subschemas_shape ((key, field) # rest) = subschemas field @ subschemas_shape rest"
| "subschemas_list [] = []"
| "subschemas_list (option # rest) = subschemas option @ subschemas_list rest"

text \<open>
  Identities identify: two schema objects of a schema with the same identity are the
  same object (a schema object may occur several times in a schema).
\<close>

definition wellIdentified :: "zod \<Rightarrow> bool" where
  "wellIdentified schema =
     list_all (\<lambda>a. list_all (\<lambda>b. oid a = oid b \<longrightarrow> a = b) (subschemas schema))
              (subschemas schema)"

text \<open>
  What a call of \<^verbatim>\<open>hasReservedField\<close> guarantees, among the schema objects \<open>U\<close>: the
  result is the expected one, and when it is false the visited set has only grown, by
  schema objects that do not contain the reserved field.
\<close>

definition visitedSound :: "zod set \<Rightarrow> nat set \<Rightarrow> bool \<times> nat set \<Rightarrow> bool \<Rightarrow> bool" where
  "visitedSound U visited result expected =
     (fst result = expected \<and>
      (\<not> expected \<longrightarrow>
         visited \<subseteq> snd result \<and>
         (\<forall>n\<in>U. oid n \<in> snd result \<longrightarrow> oid n \<notin> visited \<longrightarrow> \<not> containsReservedField n)))"

section \<open>protobuf/converter.ts\<close>

text \<open>
  What the converter builds with the protobufjs constructors, as plain data. Every
  \<^verbatim>\<open>root.add\<close> only appends to the root and the source never reads the root back, so
  each function returns the list of types it added, in the order of the calls.
\<close>

datatype pbrule = NoRule | Optional | Repeated

datatype pbfield =
    Field string nat string pbrule
  | MapField string nat string string

datatype pbnested =
    Type string "pbfield list"
  | Enum string "(string \<times> nat) list"

record pbtype =
  typeName :: string
  typeFields :: "pbfield list"
  rootTypes :: "pbnested list"

fun unwrapEffects :: "zod \<Rightarrow> zod" where
  "unwrapEffects (ZodEffects _ inner) = unwrapEffects inner"
| "unwrapEffects schema = schema"

text \<open>\<^verbatim>\<open>charAt(0).toUpperCase() + slice(1)\<close>, on ASCII letters.\<close>

definition toUpperCase :: "char \<Rightarrow> char" where
  "toUpperCase c =
     (if 97 \<le> (of_char c :: nat) \<and> (of_char c :: nat) \<le> 122
      then char_of ((of_char c :: nat) - 32) else c)"

fun capitalize :: "string \<Rightarrow> string" where
  "capitalize [] = []"
| "capitalize (c # cs) = toUpperCase c # cs"

fun constructorName :: "zod \<Rightarrow> string" where
  "constructorName (ZodString _) = ''ZodString''"
| "constructorName (ZodNumber _ _) = ''ZodNumber''"
| "constructorName (ZodBoolean _) = ''ZodBoolean''"
| "constructorName (ZodBigInt _) = ''ZodBigInt''"
| "constructorName (ZodEnum _ _) = ''ZodEnum''"
| "constructorName (ZodLiteral _ _) = ''ZodLiteral''"
| "constructorName (ZodObject _ _) = ''ZodObject''"
| "constructorName (ZodArray _ _) = ''ZodArray''"
| "constructorName (ZodOptional _ _) = ''ZodOptional''"
| "constructorName (ZodNullable _ _) = ''ZodNullable''"
| "constructorName (ZodDefault _ _) = ''ZodDefault''"
| "constructorName (ZodUnion _ _) = ''ZodUnion''"
| "constructorName (ZodDiscriminatedUnion _ _) = ''ZodDiscriminatedUnion''"
| "constructorName (ZodIntersection _ _ _) = ''ZodIntersection''"
| "constructorName (ZodRecord _ _ _) = ''ZodRecord''"
| "constructorName (ZodMap _ _ _) = ''ZodMap''"
| "constructorName (ZodTuple _ _) = ''ZodTuple''"
| "constructorName (ZodEffects _ _) = ''ZodEffects''"
| "constructorName (ZodPipeline _ _ _) = ''ZodPipeline''"
| "constructorName (ZodLazy _ _) = ''ZodLazy''"
| "constructorName (ZodOther _ name) = name"

definition unsupported :: "zod \<Rightarrow> error" where
  "unsupported schema = GenericError (''Unsupported Zod type: '' @ constructorName schema)"

text \<open>
  The head of \<^verbatim>\<open>convertZodTypeToProtobufField\<close>: effects are unwrapped in a loop, then
  one \<open>ZodOptional\<close> and then one \<open>ZodNullable\<close>; the flag is \<^verbatim>\<open>isOptional\<close>.
\<close>

definition unwrapField :: "zod \<Rightarrow> zod \<times> bool" where
  "unwrapField schema =
     (let (s1, opt1) = (case unwrapEffects schema of
                          ZodOptional _ inner \<Rightarrow> (inner, True)
                        | s \<Rightarrow> (s, False))
      in case s1 of
           ZodNullable _ inner \<Rightarrow> (inner, True)
         | s \<Rightarrow> (s, opt1))"

function zodTypeToProtobufType :: "zod \<Rightarrow> string \<Rightarrow> error + (string \<times> pbnested list)"
  and convertZodTypeToProtobufField ::
        "string \<Rightarrow> nat \<Rightarrow> zod \<Rightarrow> error + (pbfield \<times> pbnested list)"
  and convertShape ::
        "(string \<times> zod) list \<Rightarrow> nat \<Rightarrow> error + (pbfield list \<times> pbnested list)"
where
  "zodTypeToProtobufType schema fieldName =
     (case unwrapEffects schema of
        ZodOptional _ inner \<Rightarrow> zodTypeToProtobufType inner fieldName
      | ZodNullable _ inner \<Rightarrow> zodTypeToProtobufType inner fieldName
      | ZodString _ \<Rightarrow> Inr (''string'', [])
      | ZodNumber _ checks \<Rightarrow>
          (if ''int'' \<in> set checks then Inr (''int32'', []) else Inr (''double'', []))
      | ZodBoolean _ \<Rightarrow> Inr (''bool'', [])
      | ZodArray _ element \<Rightarrow> zodTypeToProtobufType element fieldName
      | ZodObject _ shape \<Rightarrow>
          (let nestedMessageName = capitalize fieldName @ ''Message'' in
           case convertShape shape 1 of
             Inl e \<Rightarrow> Inl e
           | Inr (nestedFields, added) \<Rightarrow>
               Inr (nestedMessageName, added @ [Type nestedMessageName nestedFields]))
      | ZodEnum _ vals \<Rightarrow>
          (let enumName = capitalize fieldName @ ''Enum'' in
           Inr (enumName, [Enum enumName (zip vals [0..<length vals])]))
      | ZodRecord _ keyType valueType \<Rightarrow> zodTypeToProtobufType valueType fieldName
      | ZodBigInt _ \<Rightarrow> Inr (''int64'', [])
      | ZodDefault _ inner \<Rightarrow> zodTypeToProtobufType inner fieldName
      | ZodUnion i options \<Rightarrow>
          (case options of
             option # _ \<Rightarrow> zodTypeToProtobufType option fieldName
           | [] \<Rightarrow> Inl (unsupported (ZodUnion i options)))
      | ZodLiteral i v \<Rightarrow>
          (case v of
             JStr _ \<Rightarrow> Inr (''string'', [])
           | JNum _ \<Rightarrow> Inr (''double'', [])
           | JBool _ \<Rightarrow> Inr (''bool'', [])
           | _ \<Rightarrow> Inl (unsupported (ZodLiteral i v)))
      | other \<Rightarrow> Inl (unsupported other))"
| "convertZodTypeToProtobufField name fieldNumber schema =
     (let (unwrappedSchema, isOptional) = unwrapField schema in
      case zodTypeToProtobufType unwrappedSchema name of
        Inl e \<Rightarrow> Inl e
      | Inr (pbType, added) \<Rightarrow>
          (case unwrappedSchema of
             ZodRecord _ keyType valueType \<Rightarrow>
               (case keyType of
                  ZodString _ \<Rightarrow>
                    (case zodTypeToProtobufType valueType (name @ ''Value'') of
                       Inl e \<Rightarrow> Inl e
                     | Inr (valuePbType, added') \<Rightarrow>
                         Inr (MapField name fieldNumber ''string'' valuePbType, added @ added'))
                | _ \<Rightarrow> Inl (GenericError ''Map keys must be strings''))
           | ZodArray _ _ \<Rightarrow> Inr (Field name fieldNumber pbType Repeated, added)
           | _ \<Rightarrow> Inr (Field name fieldNumber pbType (if isOptional then Optional else NoRule),
                        added)))"
| "convertShape [] fieldNumber = Inr ([], [])"
| "convertShape ((key, fieldSchema) # rest) fieldNumber =
     (case convertZodTypeToProtobufField key fieldNumber fieldSchema of
        Inl e \<Rightarrow> Inl e
      | Inr (field, added) \<Rightarrow>
          (case convertShape rest (fieldNumber + 1) of
             Inl e \<Rightarrow> Inl e
           | Inr (others, added') \<Rightarrow> Inr (field # others, added @ added')))"
  by pat_completeness auto
termination
proof -
  have ue: "unwrapEffects s = t \<Longrightarrow> size t \<le> size s" for s t
    by (induction s arbitrary: t rule: unwrapEffects.induct) auto
  have uf: "(x, y) = unwrapField s \<Longrightarrow> size x \<le> size s" for s x y
    using ue[of s "unwrapEffects s"]
    by (auto simp: unwrapField_def Let_def split: zod.splits prod.splits)
  show ?thesis
    apply (relation "measure (\<lambda>x. case x of
              Inl (s, n) \<Rightarrow> 2 * size s
            | Inr (Inl (n, k, s)) \<Rightarrow> 2 * size s + 1
            | Inr (Inr (sh, k)) \<Rightarrow> 2 * size_list (size_prod (\<lambda>_. 0) size) sh + 1)")
                apply simp
               apply (auto dest!: ue uf)
    done
qed


section \<open>External libraries\<close>

text \<open>
  zod, protobufjs, zlib/pako and Node's \<^verbatim>\<open>Buffer\<close> are not part of the repository.
  They are parameters of the model: each call of a library function in the source is a
  call of the corresponding component below, and each may raise.
  \<^item> \<open>zod_parse\<close> is \<^verbatim>\<open>schema.parse(data)\<close>;
  \<^item> \<open>pb_resolveAll\<close> stands for the checks protobufjs makes while the root is
    assembled (\<^verbatim>\<open>root.add\<close>, \<^verbatim>\<open>root.resolveAll\<close>): \<open>None\<close> when it accepts the types;
  \<^item> \<open>pb_fromObject\<close>, \<open>pb_encode\<close> (with \<^verbatim>\<open>.finish()\<close>), \<open>pb_decode\<close> and
    \<open>pb_toObject\<close> (with the options the decoder passes) are the methods of the
    generated type; a protobufjs message is a JavaScript object;
  \<^item> \<open>isNode\<close> is what \<^verbatim>\<open>platform.ts\<close> detects; the four compression functions are
    \<^verbatim>\<open>deflateSync\<close>/\<^verbatim>\<open>inflateSync\<close> of zlib and \<^verbatim>\<open>deflate\<close>/\<^verbatim>\<open>inflate\<close> of pako;
  \<^item> \<open>buffer_toBase64\<close> is \<^verbatim>\<open>Buffer.from(data).toString('base64')\<close> and
    \<open>buffer_fromBase64\<close> is \<^verbatim>\<open>Buffer.from(s, 'base64')\<close>.
\<close>

record libs =
  zod_parse :: "zod \<Rightarrow> jsval \<Rightarrow> error + jsval"
  pb_resolveAll :: "pbnested list \<Rightarrow> error option"
  pb_fromObject :: "pbtype \<Rightarrow> jsval \<Rightarrow> error + jsval"
  pb_encode :: "pbtype \<Rightarrow> jsval \<Rightarrow> error + byte list"
  pb_decode :: "pbtype \<Rightarrow> byte list \<Rightarrow> error + jsval"
  pb_toObject :: "pbtype \<Rightarrow> jsval \<Rightarrow> jsval"
  isNode :: bool
  zlib_deflateSync :: "byte list \<Rightarrow> error + byte list"
  pako_deflate :: "byte list \<Rightarrow> error + byte list"
  zlib_inflateSync :: "byte list \<Rightarrow> error + byte list"
  pako_inflate :: "byte list \<Rightarrow> error + byte list"
  buffer_toBase64 :: "byte list \<Rightarrow> string"
  buffer_fromBase64 :: "string \<Rightarrow> error + byte list"

text \<open>\<^verbatim>\<open>zodToProtobuf(schema)\<close>, with the default message name.\<close>

definition zodToProtobuf :: "libs \<Rightarrow> zod \<Rightarrow> error + pbtype" where
  "zodToProtobuf L schema =
     (let versionField = Field RESERVED_FIELD 1 ''uint32'' Optional in
      case unwrapEffects schema of
        ZodObject _ shape \<Rightarrow>
          (case convertShape shape 2 of
             Inl e \<Rightarrow> Inl e
           | Inr (userFields, added) \<Rightarrow>
               (let messageType = Type ''EncodedState'' (versionField # userFields) in
                case pb_resolveAll L (added @ [messageType]) of
                  Some e \<Rightarrow> Inl e
                | None \<Rightarrow> Inr \<lparr> typeName = ''EncodedState'',
                                 typeFields = versionField # userFields,
                                 rootTypes = added @ [messageType] \<rparr>))
      | _ \<Rightarrow> Inl (GenericError ''Root schema must be a ZodObject''))"

section \<open>compression/compress.ts, decompress.ts, base64url.ts\<close>

definition compress :: "libs \<Rightarrow> byte list \<Rightarrow> error + byte list" where
  "compress L data =
     (case (if isNode L then zlib_deflateSync L data else pako_deflate L data) of
        Inl _ \<Rightarrow> Inl (CompressionError ''Compression failed'')
      | Inr buffer \<Rightarrow> Inr buffer)"

definition decompress :: "libs \<Rightarrow> byte list \<Rightarrow> error + byte list" where
  "decompress L data =
     (case (if isNode L then zlib_inflateSync L data else pako_inflate L data) of
        Inl _ \<Rightarrow> Inl (CompressionError ''Decompression failed'')
      | Inr buffer \<Rightarrow> Inr buffer)"

text \<open>\<^verbatim>\<open>s.replace(/a/g, b)\<close> for single characters.\<close>

definition replaceAll :: "char \<Rightarrow> char \<Rightarrow> string \<Rightarrow> string" where
  "replaceAll a b s = map (\<lambda>c. if c = a then b else c) s"

definition encodeBase64Url :: "libs \<Rightarrow> byte list \<Rightarrow> string" where
  "encodeBase64Url L data =
     (let base64 = buffer_toBase64 L data in
      filter (\<lambda>c. c \<noteq> CHR ''='')
        (replaceAll (CHR ''/'') (CHR ''_'') (replaceAll (CHR ''+'') (CHR ''-'') base64)))"

definition decodeBase64Url :: "libs \<Rightarrow> string \<Rightarrow> error + byte list" where
  "decodeBase64Url L encoded =
     (let base64 = replaceAll (CHR ''_'') (CHR ''/'') (replaceAll (CHR ''-'') (CHR ''+'') encoded);
          padding = (4 - (length base64 mod 4)) mod 4;
          base64 = base64 @ replicate padding (CHR ''='')
      in case buffer_fromBase64 L base64 of
           Inl _ \<Rightarrow> Inl (DecodingError ''Failed to decode base64url string'')
         | Inr bytes \<Rightarrow> Inr bytes)"

section \<open>encoder.ts\<close>

text \<open>Template literals print numbers in decimal.\<close>

fun digitChar :: "nat \<Rightarrow> char" where
  "digitChar n = char_of (48 + n)"

function stringOfNat :: "nat \<Rightarrow> string" where
  "stringOfNat n = (if n < 10 then [digitChar n] else stringOfNat (n div 10) @ [digitChar (n mod 10)])"
  by pat_completeness auto
termination
  by (relation "measure id") auto

definition stringOfInt :: "int \<Rightarrow> string" where
  "stringOfInt i = (if i < 0 then CHR ''-'' # stringOfNat (nat (- i)) else stringOfNat (nat i))"

text \<open>
  \<^verbatim>\<open>typeof v === 'object' && v !== null && !Array.isArray(v)\<close>, the own properties that
  an object spread copies, \<^verbatim>\<open>typeof\<close>, and a property read (\<open>JUndefined\<close> when the key is
  absent).
\<close>

fun isObjectNotArray :: "jsval \<Rightarrow> bool" where
  "isObjectNotArray (JObj _) = True"
| "isObjectNotArray (JDate _) = True"
| "isObjectNotArray _ = False"

fun ownProps :: "jsval \<Rightarrow> (string \<times> jsval) list" where
  "ownProps (JObj props) = props"
| "ownProps _ = []"

fun typeOf :: "jsval \<Rightarrow> string" where
  "typeOf JUndefined = ''undefined''"
| "typeOf JNull = ''object''"
| "typeOf (JBool _) = ''boolean''"
| "typeOf (JNum _) = ''number''"
| "typeOf (JStr _) = ''string''"
| "typeOf (JArr _) = ''object''"
| "typeOf (JObj _) = ''object''"
| "typeOf (JDate _) = ''object''"

definition getProp :: "jsval \<Rightarrow> string \<Rightarrow> jsval" where
  "getProp obj key = (case map_of (ownProps obj) key of None \<Rightarrow> JUndefined | Some v \<Rightarrow> v)"

text \<open>Step 3 of \<^verbatim>\<open>encodeInternal\<close>: the object handed to the serializer.\<close>

definition withVersion :: "jsval \<Rightarrow> int \<Rightarrow> jsval" where
  "withVersion validated ver =
     (if ver = 1 then validated
      else JObj (AList.update RESERVED_FIELD (JNum ver) (ownProps validated)))"

text \<open>
  Step 6 of \<^verbatim>\<open>encodeInternal\<close>, after the call of \<^verbatim>\<open>compress\<close>: the marker byte and
  the bytes that follow it.
\<close>

definition finalBinary :: "byte list \<Rightarrow> byte list \<Rightarrow> byte list" where
  "finalBinary compressed binary =
     (if length compressed < length binary then 0x01 # compressed else 0x00 # binary)"

text \<open>Step 1 to 5 of \<^verbatim>\<open>encodeInternal\<close>: from the data to the protobuf bytes.\<close>

definition encodeBinary :: "libs \<Rightarrow> jsval \<Rightarrow> zod \<Rightarrow> int \<Rightarrow> error + byte list" where
  "encodeBinary L data schema ver =
     (case validateSchema schema of
        Inl e \<Rightarrow> Inl e
      | Inr _ \<Rightarrow>
     (case zod_parse L schema data of
        Inl e \<Rightarrow> Inl e
      | Inr validated \<Rightarrow>
     (if \<not> isObjectNotArray validated
      then Inl (ValidationError
                  ''Encoded data must be an object. Root schema must be z.object({})'')
      else
     (case zodToProtobuf L schema of
        Inl e \<Rightarrow> Inl e
      | Inr pbType \<Rightarrow>
     (case pb_fromObject L pbType (withVersion validated ver) of
        Inl e \<Rightarrow> Inl e
      | Inr message \<Rightarrow> pb_encode L pbType message)))))"

definition encodeInternal :: "libs \<Rightarrow> jsval \<Rightarrow> zod \<Rightarrow> int \<Rightarrow> error + string" where
  "encodeInternal L data schema ver =
     (case encodeBinary L data schema ver of
        Inl e \<Rightarrow> Inl e
      | Inr binary \<Rightarrow>
     (case compress L binary of
        Inl e \<Rightarrow> Inl e
      | Inr compressed \<Rightarrow> Inr (encodeBase64Url L (finalBinary compressed binary))))"

text \<open>
  The public \<^verbatim>\<open>encode\<close>. With \<^verbatim>\<open>safeParse\<close> the same outcome is returned as a result
  object instead of being thrown; the version defaults to 1.
\<close>

definition encode :: "libs \<Rightarrow> jsval \<Rightarrow> zod \<Rightarrow> int \<Rightarrow> error + string" where
  "encode L data schema ver = encodeInternal L data schema ver"

section \<open>decoder.ts\<close>

text \<open>Step 5 and 6 of \<^verbatim>\<open>decodeInternal\<close>, from the decoded plain object on.\<close>

definition extractVersion :: "libs \<Rightarrow> zod \<Rightarrow> jsval \<Rightarrow> error + (jsval \<times> int)" where
  "extractVersion L schema decodedObj =
     (case getProp decodedObj RESERVED_FIELD of
        JUndefined \<Rightarrow>
          (case zod_parse L schema decodedObj of
             Inl e \<Rightarrow> Inl e
           | Inr validated \<Rightarrow> Inr (validated, 1))
      | JNum ver \<Rightarrow>
          (case zod_parse L schema (JObj (AList.delete RESERVED_FIELD (ownProps decodedObj))) of
             Inl e \<Rightarrow> Inl e
           | Inr validated \<Rightarrow> Inr (validated, ver))
      | other \<Rightarrow> Inl (DecodingError (''Invalid version field: '' @ RESERVED_FIELD
                                       @ ''. Expected number, got '' @ typeOf other)))"

text \<open>Step 3 to 6 of \<^verbatim>\<open>decodeInternal\<close>, from the protobuf bytes on.\<close>

definition decodeBinary :: "libs \<Rightarrow> zod \<Rightarrow> byte list \<Rightarrow> error + (jsval \<times> int)" where
  "decodeBinary L schema binary =
     (case zodToProtobuf L schema of
        Inl e \<Rightarrow> Inl e
      | Inr pbType \<Rightarrow>
     (case pb_decode L pbType binary of
        Inl _ \<Rightarrow> Inl (DecodingError ''Failed to decode protobuf message'')
      | Inr decoded \<Rightarrow> extractVersion L schema (pb_toObject L pbType decoded)))"

definition invalidMarker :: "string \<Rightarrow> error" where
  "invalidMarker shown =
     DecodingError (''Invalid compression marker: '' @ shown @ ''. Expected 0x00 or 0x01'')"

definition decodeInternal :: "libs \<Rightarrow> string \<Rightarrow> zod \<Rightarrow> error + (jsval \<times> int)" where
  "decodeInternal L encoded schema =
     (case validateSchema schema of
        Inl e \<Rightarrow> Inl e
      | Inr _ \<Rightarrow>
     (case decodeBase64Url L encoded of
        Inl e \<Rightarrow> Inl e
      | Inr dataWithMarker \<Rightarrow>
     (case dataWithMarker of
        [] \<Rightarrow> Inl (invalidMarker ''undefined'')
      | compressionMarker # payload \<Rightarrow>
          if compressionMarker = 0x01 then
            (case decompress L payload of
               Inl e \<Rightarrow> Inl e
             | Inr binary \<Rightarrow> decodeBinary L schema binary)
          else if compressionMarker = 0x00 then decodeBinary L schema payload
          else Inl (invalidMarker (stringOfNat (unat compressionMarker))))))"

definition decode :: "libs \<Rightarrow> string \<Rightarrow> zod \<Rightarrow> error + jsval" where
  "decode L encoded schema =
     (case decodeInternal L encoded schema of
        Inl e \<Rightarrow> Inl e
      | Inr (data, ver) \<Rightarrow> Inr data)"

definition decodeWithVersion :: "libs \<Rightarrow> string \<Rightarrow> zod \<Rightarrow> error + (jsval \<times> int)" where
  "decodeWithVersion L encoded schema = decodeInternal L encoded schema"


section \<open>migrations.ts\<close>

record migration =
  up :: "jsval \<Rightarrow> jsval"
  down :: "jsval \<Rightarrow> jsval"

text \<open>
  The migrations array may hold \<^verbatim>\<open>null\<close> or \<^verbatim>\<open>undefined\<close> entries (\<open>None\<close>); reading
  outside the array, also at a negative index, gives \<^verbatim>\<open>undefined\<close>.
\<close>

definition arrayGet :: "'a option list \<Rightarrow> int \<Rightarrow> 'a option" where
  "arrayGet xs i = (if 0 \<le> i \<and> i < int (length xs) then xs ! nat i else None)"

definition extractVersionAndData :: "libs \<Rightarrow> string \<Rightarrow> zod \<Rightarrow> error + (int \<times> jsval)" where
  "extractVersionAndData L encoded sourceSchema =
     (case decodeWithVersion L encoded sourceSchema of
        Inl e \<Rightarrow> Inl e
      | Inr (data, ver) \<Rightarrow> Inr (ver, data))"

definition missingUpgrade :: "int \<Rightarrow> int \<Rightarrow> int \<Rightarrow> error" where
  "missingUpgrade v currentVersion targetVersion =
     VersionMismatchError
       (''Missing migration from version '' @ stringOfInt v @ '' to '' @ stringOfInt (v + 1)
        @ ''. '' @ ''Cannot upgrade from v'' @ stringOfInt currentVersion
        @ '' to v'' @ stringOfInt targetVersion @ ''.'')"

definition missingDowngrade :: "int \<Rightarrow> int \<Rightarrow> int \<Rightarrow> error" where
  "missingDowngrade v currentVersion targetVersion =
     VersionMismatchError
       (''Missing migration from version '' @ stringOfInt v @ '' to '' @ stringOfInt (v - 1)
        @ ''. '' @ ''Cannot downgrade from v'' @ stringOfInt currentVersion
        @ '' to v'' @ stringOfInt targetVersion @ ''.'')"

text \<open>The two \<^verbatim>\<open>for\<close> loops of \<^verbatim>\<open>applyMigrations\<close>, from loop variable \<open>v\<close> on.\<close>

function upgradeLoop ::
  "migration option list \<Rightarrow> int \<Rightarrow> int \<Rightarrow> int \<Rightarrow> jsval \<Rightarrow> error + jsval" where
  "upgradeLoop migrations currentVersion targetVersion v data =
     (if v < targetVersion then
        (let migrationIndex = v - 1 in
         if migrationIndex \<ge> int (length migrations) \<or> arrayGet migrations migrationIndex = None
         then Inl (missingUpgrade v currentVersion targetVersion)
         else upgradeLoop migrations currentVersion targetVersion (v + 1)
                (up (the (arrayGet migrations migrationIndex)) data))
      else Inr data)"
  by pat_completeness auto
termination
  by (relation "measure (\<lambda>(migrations, currentVersion, targetVersion, v, data).
                   nat (targetVersion - v))") auto

function downgradeLoop ::
  "migration option list \<Rightarrow> int \<Rightarrow> int \<Rightarrow> int \<Rightarrow> jsval \<Rightarrow> error + jsval" where
  "downgradeLoop migrations currentVersion targetVersion v data =
     (if v > targetVersion then
        (let migrationIndex = v - 2 in
         if migrationIndex < 0 \<or> migrationIndex \<ge> int (length migrations)
            \<or> arrayGet migrations migrationIndex = None
         then Inl (missingDowngrade v currentVersion targetVersion)
         else downgradeLoop migrations currentVersion targetVersion (v - 1)
                (down (the (arrayGet migrations migrationIndex)) data))
      else Inr data)"
  by pat_completeness auto
termination
  by (relation "measure (\<lambda>(migrations, currentVersion, targetVersion, v, data).
                   nat (v - targetVersion))") auto

definition applyMigrations ::
  "libs \<Rightarrow> string \<Rightarrow> zod \<Rightarrow> zod \<Rightarrow> int \<Rightarrow> migration option list \<Rightarrow> error + string" where
  "applyMigrations L encoded sourceSchema targetSchema targetVersion migrations =
     (case extractVersionAndData L encoded sourceSchema of
        Inl e \<Rightarrow> Inl e
      | Inr (currentVersion, decoded) \<Rightarrow>
          if currentVersion = targetVersion
          then encode L decoded targetSchema targetVersion
          else
            (case (if currentVersion < targetVersion
                   then upgradeLoop migrations currentVersion targetVersion currentVersion decoded
                   else downgradeLoop migrations currentVersion targetVersion currentVersion
                          decoded) of
               Inl e \<Rightarrow> Inl e
             | Inr data \<Rightarrow> encode L data targetSchema targetVersion))"

definition getVersion :: "libs \<Rightarrow> string \<Rightarrow> zod \<Rightarrow> int" where
  "getVersion L encoded schema =
     (case decodeWithVersion L encoded schema of
        Inl _ \<Rightarrow> 1
      | Inr (data, ver) \<Rightarrow> ver)"

section \<open>format.ts\<close>

definition FLAGS_COMPRESSED :: int where
  "FLAGS_COMPRESSED = push_bit 6 1"

definition FLAGS_STRING_DICTIONARY :: int where
  "FLAGS_STRING_DICTIONARY = push_bit 4 1"

definition FLAGS_BOOLEAN_PACKING :: int where
  "FLAGS_BOOLEAN_PACKING = push_bit 5 1"

text \<open>
  The options of \<^verbatim>\<open>encodeWithHeader\<close>; the two optimization flags may be left out
  (\<open>None\<close>), which the \<^verbatim>\<open>if\<close> tests read as false.
\<close>

record headerOptions =
  compressed :: bool
  stringDictionary :: "bool option"
  booleanPacking :: "bool option"

record decodedHeader =
  version :: int
  isCompressed :: bool
  hasStringDictionary :: bool
  hasBooleanPacking :: bool
  payload :: "byte list"

definition encodeWithHeader :: "byte list \<Rightarrow> int \<Rightarrow> headerOptions \<Rightarrow> error + byte list" where
  "encodeWithHeader pl ver options =
     (if ver < 0 \<or> ver > 1023 then Inl (GenericError ''Version must be 0-1023'')
      else
        let byte0 = ver AND 0x3F;
            byte0 = (if compressed options then byte0 OR FLAGS_COMPRESSED else byte0);
            byte1 = (drop_bit 6 ver) AND 0x0F;
            byte1 = (if stringDictionary options = Some True
                     then byte1 OR FLAGS_STRING_DICTIONARY else byte1);
            byte1 = (if booleanPacking options = Some True
                     then byte1 OR FLAGS_BOOLEAN_PACKING else byte1)
        in Inr (word_of_int byte0 # word_of_int byte1 # pl))"

definition decodeWithHeader :: "byte list \<Rightarrow> error + decodedHeader" where
  "decodeWithHeader encoded =
     (if length encoded < 2 then Inl (GenericError ''Encoded data too short - missing header'')
      else
        let byte0 = uint (encoded ! 0);
            byte1 = uint (encoded ! 1);
            versionLower = byte0 AND 0x3F;
            versionUpper = byte1 AND 0x0F;
            ver = versionLower OR (push_bit 6 versionUpper)
        in Inr \<lparr> version = ver,
                 isCompressed = (byte0 AND FLAGS_COMPRESSED \<noteq> 0),
                 hasStringDictionary = (byte1 AND FLAGS_STRING_DICTIONARY \<noteq> 0),
                 hasBooleanPacking = (byte1 AND FLAGS_BOOLEAN_PACKING \<noteq> 0),
                 payload = drop 2 encoded \<rparr>)"

section \<open>optimizations/boolean-packing.ts\<close>

text \<open>The body of the loop of \<^verbatim>\<open>packBooleans\<close> at index \<open>i\<close>.\<close>

definition packStep :: "bool list \<Rightarrow> nat \<Rightarrow> byte list \<Rightarrow> byte list" where
  "packStep values i bytes =
     (if values ! i
      then bytes[i div 8 := (bytes ! (i div 8)) OR push_bit (i mod 8) 1]
      else bytes)"

definition packBooleans :: "bool list \<Rightarrow> byte list" where
  "packBooleans values =
     fold (packStep values) [0..<length values] (replicate ((length values + 7) div 8) 0)"

definition unpackBooleans :: "byte list \<Rightarrow> nat \<Rightarrow> bool list" where
  "unpackBooleans bytes count =
     map (\<lambda>i. if i div 8 < length bytes
              then (drop_bit (i mod 8) (bytes ! (i div 8)) AND 1) = 1
              else False)
         [0..<count]"


section \<open>A reference instance of the external libraries\<close>

text \<open>
  A small instance of the library parameters, on which the model can be run: a
  structural validator for objects of strings, numbers, booleans, dates and optional
  fields;
  the protobuf wire format for messages of uint32, int32, bool and string scalars, with
  the conversions protobufjs applies in \<^verbatim>\<open>fromObject\<close>; a run-length coder in the place
  of DEFLATE; and base64. Whatever is outside this fragment raises.
\<close>

fun ref_parse :: "zod \<Rightarrow> jsval \<Rightarrow> error + jsval"
  and ref_parse_shape :: "(string \<times> zod) list \<Rightarrow> jsval \<Rightarrow> error + (string \<times> jsval) list"
where
  "ref_parse (ZodString _) v =
     (case v of JStr _ \<Rightarrow> Inr v | _ \<Rightarrow> Inl (ZodError ''Expected string''))"
| "ref_parse (ZodNumber _ _) v =
     (case v of JNum _ \<Rightarrow> Inr v | _ \<Rightarrow> Inl (ZodError ''Expected number''))"
| "ref_parse (ZodBoolean _) v =
     (case v of JBool _ \<Rightarrow> Inr v | _ \<Rightarrow> Inl (ZodError ''Expected boolean''))"
| "ref_parse (ZodOptional _ inner) v =
     (if v = JUndefined then Inr JUndefined else ref_parse inner v)"
| "ref_parse (ZodObject _ shape) v =
     (case v of
        JObj _ \<Rightarrow> (case ref_parse_shape shape v of
                     Inl e \<Rightarrow> Inl e
                   | Inr props \<Rightarrow> Inr (JObj props))
      | _ \<Rightarrow> Inl (ZodError ''Expected object''))"
| "ref_parse (ZodOther _ name) v =
     (if name = ''ZodAny'' then Inr v
      else if name = ''ZodDate'' then
        (case v of JDate _ \<Rightarrow> Inr v | _ \<Rightarrow> Inl (ZodError ''Expected date''))
      else Inl (ZodError ''schema outside the reference validator''))"
| "ref_parse _ v = Inl (ZodError ''schema outside the reference validator'')"
| "ref_parse_shape [] input = Inr []"
| "ref_parse_shape ((key, fieldSchema) # rest) input =
     (case ref_parse fieldSchema (getProp input key) of
        Inl e \<Rightarrow> Inl e
      | Inr v \<Rightarrow>
          (case ref_parse_shape rest input of
             Inl e \<Rightarrow> Inl e
           | Inr props \<Rightarrow>
               Inr (if v = JUndefined \<and> map_of (ownProps input) key = None
                    then props else (key, v) # props)))"

text \<open>protobufjs, for messages whose fields are uint32, int32, bool or string scalars.\<close>

definition outsideFragment :: error where
  "outsideFragment = ExternalError ''outside the reference fragment''"

definition toInt32 :: "int \<Rightarrow> int" where
  "toInt32 n = sint (word_of_int n :: 32 word)"

definition toUint32 :: "int \<Rightarrow> int" where
  "toUint32 n = n mod 2 ^ 32"

fun truthy :: "jsval \<Rightarrow> bool" where
  "truthy JUndefined = False"
| "truthy JNull = False"
| "truthy (JBool b) = b"
| "truthy (JNum n) = (n \<noteq> 0)"
| "truthy (JStr s) = (s \<noteq> [])"
| "truthy _ = True"

definition ref_coerce :: "string \<Rightarrow> jsval \<Rightarrow> error + jsval" where
  "ref_coerce ty v =
     (if ty = ''uint32'' then (case v of JNum n \<Rightarrow> Inr (JNum (toUint32 n)) | _ \<Rightarrow> Inl outsideFragment)
      else if ty = ''int32'' then (case v of JNum n \<Rightarrow> Inr (JNum (toInt32 n)) | _ \<Rightarrow> Inl outsideFragment)
      else if ty = ''bool'' then Inr (JBool (truthy v))
      else if ty = ''string'' then
        (case v of
           JStr s \<Rightarrow> Inr (JStr s)
         | JNum n \<Rightarrow> Inr (JStr (stringOfInt n))
         | JBool b \<Rightarrow> Inr (JStr (if b then ''true'' else ''false''))
         | _ \<Rightarrow> Inl outsideFragment)
      else Inl outsideFragment)"

fun ref_fromFields :: "pbfield list \<Rightarrow> jsval \<Rightarrow> error + (string \<times> jsval) list" where
  "ref_fromFields [] obj = Inr []"
| "ref_fromFields (Field name _ ty rule # rest) obj =
     (let v = getProp obj name in
      if v = JUndefined \<or> v = JNull then ref_fromFields rest obj
      else if rule = Repeated then Inl outsideFragment
      else
        (case ref_coerce ty v of
           Inl e \<Rightarrow> Inl e
         | Inr w \<Rightarrow>
             (case ref_fromFields rest obj of
                Inl e \<Rightarrow> Inl e
              | Inr props \<Rightarrow> Inr ((name, w) # props))))"
| "ref_fromFields (MapField name _ _ _ # rest) obj =
     (let v = getProp obj name in
      if v = JUndefined \<or> v = JNull then ref_fromFields rest obj
      else Inl outsideFragment)"

definition ref_fromObject :: "pbtype \<Rightarrow> jsval \<Rightarrow> error + jsval" where
  "ref_fromObject T obj =
     (case ref_fromFields (typeFields T) obj of
        Inl e \<Rightarrow> Inl e
      | Inr props \<Rightarrow> Inr (JObj props))"

function varint :: "nat \<Rightarrow> byte list" where
  "varint n = (if n < 128 then [of_nat n] else of_nat (n mod 128 + 128) # varint (n div 128))"
  by pat_completeness auto
termination
  by (relation "measure id") auto

definition ref_writeValue :: "string \<Rightarrow> jsval \<Rightarrow> error + (nat \<times> byte list)" where
  "ref_writeValue ty v =
     (if ty = ''uint32'' then
        (case v of JNum n \<Rightarrow> Inr (0, varint (nat (toUint32 n))) | _ \<Rightarrow> Inl outsideFragment)
      else if ty = ''int32'' then
        (case v of JNum n \<Rightarrow> Inr (0, varint (nat (n mod 2 ^ 64))) | _ \<Rightarrow> Inl outsideFragment)
      else if ty = ''bool'' then
        (case v of JBool b \<Rightarrow> Inr (0, [if b then 1 else 0]) | _ \<Rightarrow> Inl outsideFragment)
      else if ty = ''string'' then
        (case v of
           JStr s \<Rightarrow> Inr (2, varint (length s) @ map (\<lambda>c. of_nat (of_char c)) s)
         | _ \<Rightarrow> Inl outsideFragment)
      else Inl outsideFragment)"

fun ref_writeFields :: "pbfield list \<Rightarrow> jsval \<Rightarrow> error + byte list" where
  "ref_writeFields [] msg = Inr []"
| "ref_writeFields (Field name fid ty rule # rest) msg =
     (let v = getProp msg name in
      if v = JUndefined \<or> v = JNull then ref_writeFields rest msg
      else
        (case ref_writeValue ty v of
           Inl e \<Rightarrow> Inl e
         | Inr (wireType, bytes) \<Rightarrow>
             (case ref_writeFields rest msg of
                Inl e \<Rightarrow> Inl e
              | Inr following \<Rightarrow> Inr (varint (fid * 8 + wireType) @ bytes @ following))))"
| "ref_writeFields (MapField name _ _ _ # rest) msg =
     (let v = getProp msg name in
      if v = JUndefined \<or> v = JNull then ref_writeFields rest msg
      else Inl outsideFragment)"

definition ref_encode :: "pbtype \<Rightarrow> jsval \<Rightarrow> error + byte list" where
  "ref_encode T msg = ref_writeFields (typeFields T) msg"

definition outOfRange :: error where
  "outOfRange = ExternalError ''index out of range''"

fun readVarint :: "byte list \<Rightarrow> error + (nat \<times> byte list)" where
  "readVarint [] = Inl outOfRange"
| "readVarint (b # bs) =
     (if unat b < 128 then Inr (unat b, bs)
      else (case readVarint bs of
              Inl e \<Rightarrow> Inl e
            | Inr (n, rest) \<Rightarrow> Inr (unat b - 128 + 128 * n, rest)))"

fun findField :: "pbfield list \<Rightarrow> nat \<Rightarrow> (string \<times> string) option" where
  "findField [] fid = None"
| "findField (Field name i ty rule # rest) fid =
     (if i = fid then Some (name, ty) else findField rest fid)"
| "findField (MapField name i kt vt # rest) fid =
     (if i = fid then Some (name, ''map'') else findField rest fid)"

definition ref_readValue :: "string \<Rightarrow> byte list \<Rightarrow> error + (jsval \<times> byte list)" where
  "ref_readValue ty bs =
     (if ty = ''uint32'' \<or> ty = ''int32'' \<or> ty = ''bool'' then
        (case readVarint bs of
           Inl e \<Rightarrow> Inl e
         | Inr (n, rest) \<Rightarrow>
             Inr (if ty = ''uint32'' then JNum (toUint32 (int n))
                  else if ty = ''int32'' then JNum (toInt32 (int n))
                  else JBool (toUint32 (int n) \<noteq> 0), rest))
      else if ty = ''string'' then
        (case readVarint bs of
           Inl e \<Rightarrow> Inl e
         | Inr (n, rest) \<Rightarrow>
             if length rest < n then Inl outOfRange
             else Inr (JStr (map (\<lambda>b. char_of (unat b)) (take n rest)), drop n rest))
      else Inl outsideFragment)"

definition ref_skipType :: "nat \<Rightarrow> byte list \<Rightarrow> error + byte list" where
  "ref_skipType wireType bs =
     (if wireType = 0 then
        (case readVarint bs of Inl e \<Rightarrow> Inl e | Inr (n, rest) \<Rightarrow> Inr rest)
      else if wireType = 1 then
        (if length bs < 8 then Inl outOfRange else Inr (drop 8 bs))
      else if wireType = 2 then
        (case readVarint bs of
           Inl e \<Rightarrow> Inl e
         | Inr (n, rest) \<Rightarrow> if length rest < n then Inl outOfRange else Inr (drop n rest))
      else if wireType = 5 then
        (if length bs < 4 then Inl outOfRange else Inr (drop 4 bs))
      else Inl (ExternalError ''invalid wire type''))"

function ref_readFields ::
  "pbfield list \<Rightarrow> byte list \<Rightarrow> (string \<times> jsval) list \<Rightarrow> error + (string \<times> jsval) list" where
  "ref_readFields fs bs acc =
     (if bs = [] then Inr acc
      else
        (case readVarint bs of
           Inl e \<Rightarrow> Inl e
         | Inr (tag, rest) \<Rightarrow>
             (case findField fs (tag div 8) of
                Some (name, ty) \<Rightarrow>
                  (case ref_readValue ty rest of
                     Inl e \<Rightarrow> Inl e
                   | Inr (v, rest') \<Rightarrow>
                       if length rest' \<le> length rest
                       then ref_readFields fs rest' (AList.update name v acc)
                       else Inl outOfRange)
              | None \<Rightarrow>
                  (case ref_skipType (tag mod 8) rest of
                     Inl e \<Rightarrow> Inl e
                   | Inr rest' \<Rightarrow>
                       if length rest' \<le> length rest
                       then ref_readFields fs rest' acc
                       else Inl outOfRange))))"
  by pat_completeness auto
termination
proof -
  have shorter: "readVarint bs = Inr (n, rest) \<Longrightarrow> length rest < length bs" for bs n rest
    by (induction bs arbitrary: n rest) (auto split: if_splits sum.splits)
  show ?thesis
    by (relation "measure (\<lambda>(fs, bs, acc). length bs)") (auto dest: shorter)
qed

definition ref_decode :: "pbtype \<Rightarrow> byte list \<Rightarrow> error + jsval" where
  "ref_decode T bs =
     (case ref_readFields (typeFields T) bs [] of
        Inl e \<Rightarrow> Inl e
      | Inr props \<Rightarrow> Inr (JObj props))"

fun ref_toFields :: "pbfield list \<Rightarrow> jsval \<Rightarrow> (string \<times> jsval) list" where
  "ref_toFields [] msg = []"
| "ref_toFields (Field name _ _ _ # rest) msg =
     (let v = getProp msg name in
      if v = JUndefined \<or> v = JNull then ref_toFields rest msg
      else (name, v) # ref_toFields rest msg)"
| "ref_toFields (MapField name _ _ _ # rest) msg = ref_toFields rest msg"

definition ref_toObject :: "pbtype \<Rightarrow> jsval \<Rightarrow> jsval" where
  "ref_toObject T msg = JObj (ref_toFields (typeFields T) msg)"

fun nestedName :: "pbnested \<Rightarrow> string" where
  "nestedName (Type name _) = name"
| "nestedName (Enum name _) = name"

definition ref_resolveAll :: "pbnested list \<Rightarrow> error option" where
  "ref_resolveAll types =
     (if distinct (map nestedName types) then None
      else Some (ExternalError ''duplicate name''))"

text \<open>A run-length coder stands in for DEFLATE.\<close>

fun runs :: "byte list \<Rightarrow> (nat \<times> byte) list" where
  "runs [] = []"
| "runs (x # xs) =
     (case runs xs of
        (n, y) # rest \<Rightarrow> if x = y \<and> n < 255 then (Suc n, y) # rest else (1, x) # (n, y) # rest
      | [] \<Rightarrow> [(1, x)])"

definition ref_deflate :: "byte list \<Rightarrow> error + byte list" where
  "ref_deflate bs = Inr (concat (map (\<lambda>(n, y). [of_nat n, y]) (runs bs)))"

fun ref_inflate :: "byte list \<Rightarrow> error + byte list" where
  "ref_inflate [] = Inr []"
| "ref_inflate [n] = Inl (ExternalError ''unexpected end of file'')"
| "ref_inflate (n # y # rest) =
     (case ref_inflate rest of
        Inl e \<Rightarrow> Inl e
      | Inr bs \<Rightarrow> Inr (replicate (unat n) y @ bs))"

text \<open>Base64 of RFC 4648 with padding; decoding skips every character outside the alphabet.\<close>

definition base64Alphabet :: string where
  "base64Alphabet = ''ABCDEFGHIJKLMNOPQRSTUVWXYZabcdefghijklmnopqrstuvwxyz0123456789+/''"

definition base64Char :: "nat \<Rightarrow> char" where
  "base64Char n = base64Alphabet ! (n mod 64)"

fun ref_toBase64 :: "byte list \<Rightarrow> string" where
  "ref_toBase64 [] = []"
| "ref_toBase64 [a] =
     (let n = unat a * 16 in
      [base64Char (n div 64), base64Char n, CHR ''='', CHR ''=''])"
| "ref_toBase64 [a, b] =
     (let n = (unat a * 256 + unat b) * 4 in
      [base64Char (n div 4096), base64Char (n div 64), base64Char n, CHR ''=''])"
| "ref_toBase64 (a # b # c # rest) =
     (let n = unat a * 65536 + unat b * 256 + unat c in
      [base64Char (n div 262144), base64Char (n div 4096), base64Char (n div 64), base64Char n]
      @ ref_toBase64 rest)"

definition base64Value :: "char \<Rightarrow> nat option" where
  "base64Value c =
     (let k = (of_char c :: nat) in
      if 65 \<le> k \<and> k \<le> 90 then Some (k - 65)
      else if 97 \<le> k \<and> k \<le> 122 then Some (k - 71)
      else if 48 \<le> k \<and> k \<le> 57 then Some (k + 4)
      else if c = CHR ''+'' \<or> c = CHR ''-'' then Some 62
      else if c = CHR ''/'' \<or> c = CHR ''_'' then Some 63
      else None)"

fun sextetsToBytes :: "nat list \<Rightarrow> byte list" where
  "sextetsToBytes (a # b # c # d # rest) =
     (let n = a * 262144 + b * 4096 + c * 64 + d in
      [of_nat (n div 65536), of_nat (n div 256), of_nat n] @ sextetsToBytes rest)"
| "sextetsToBytes [a, b, c] =
     (let n = a * 4096 + b * 64 + c in [of_nat (n div 1024), of_nat (n div 4)])"
| "sextetsToBytes [a, b] = [of_nat ((a * 64 + b) div 16)]"
| "sextetsToBytes _ = []"

definition ref_fromBase64 :: "string \<Rightarrow> error + byte list" where
  "ref_fromBase64 s = Inr (sextetsToBytes (List.map_filter base64Value s))"

definition ref_libs :: libs where
  "ref_libs = \<lparr>
     zod_parse = ref_parse,
     pb_resolveAll = ref_resolveAll,
     pb_fromObject = ref_fromObject,
     pb_encode = ref_encode,
     pb_decode = ref_decode,
     pb_toObject = ref_toObject,
     isNode = True,
     zlib_deflateSync = ref_deflate,
     pako_deflate = ref_deflate,
     zlib_inflateSync = ref_inflate,
     pako_inflate = ref_inflate,
     buffer_toBase64 = ref_toBase64,
     buffer_fromBase64 = ref_fromBase64 \<rparr>"

section \<open>Values the libraries carry without loss\<close>



section \<open>Example inputs\<close>

text \<open>Schemas, values and migrations of the kind the repository's tests use.\<close>

definition schemaV1 :: zod where
  "schemaV1 = ZodObject 0 [(''name'', ZodString 1)]"

definition schemaV3 :: zod where
  "schemaV3 = ZodObject 10 [(''name'', ZodString 11), (''email'', ZodString 12),
                            (''role'', ZodString 13)]"

definition alice :: jsval where
  "alice = JObj [(''name'', JStr ''Alice'')]"

definition aliceV3 :: jsval where
  "aliceV3 = JObj [(''name'', JStr ''Alice''), (''email'', JStr ''default@example.com''),
                   (''role'', JStr ''user'')]"

definition v1ToV2 :: migration where
  "v1ToV2 = \<lparr> up = (\<lambda>d. JObj (AList.update ''email'' (JStr ''default@example.com'') (ownProps d))),
               down = (\<lambda>d. JObj (AList.delete ''email'' (ownProps d))) \<rparr>"

definition v2ToV3 :: migration where
  "v2ToV3 = \<lparr> up = (\<lambda>d. JObj (AList.update ''role'' (JStr ''user'') (ownProps d))),
               down = (\<lambda>d. JObj (AList.delete ''role'' (ownProps d))) \<rparr>"


definition longName :: jsval where
  "longName = JObj [(''name'', JStr ''aaaaaaaaaaaaaaaaaaaaaaaa'')]"

definition reservedSchema :: zod where
  "reservedSchema =
     ZodObject 20 [(''name'', ZodString 21), (''_encodedStateVersion'', ZodNumber 22 [])]"









section \<open>Boolean packing\<close>

lemma length_packStep: "length (packStep values i bytes) = length bytes"
  by (simp add: packStep_def)

lemma bit_packStep:
  assumes "i div 8 < length bytes" "b < length bytes" "j < 8"
  shows "bit (packStep values i bytes ! b) j =
         (bit (bytes ! b) j \<or> (values ! i \<and> b = i div 8 \<and> j = i mod 8))"
  using assms by (auto simp: packStep_def nth_list_update bit_simps)

lemma byte_index_bound:
  fixes k n :: nat
  assumes "k < n"
  shows "k div 8 < (n + 7) div 8"
proof -
  have "n \<le> ((n + 7) div 8) * 8"
    using div_mult_mod_eq[of "n + 7" 8] mod_less_divisor[of 8 "n + 7"] by linarith
  with assms have "k < ((n + 7) div 8) * 8" by simp
  then show ?thesis by (simp add: div_less_iff_less_mult)
qed

lemma index_split:
  fixes b j k :: nat
  assumes "j < 8"
  shows "(8 * b + j < Suc k) = (8 * b + j < k \<or> (b = k div 8 \<and> j = k mod 8))"
proof -
  have "(8 * b + j = k) = (b = k div 8 \<and> j = k mod 8)"
    using assms by auto
  then show ?thesis by auto
qed

text \<open>
  The loop invariant of \<^verbatim>\<open>packBooleans\<close>: after the indices below \<open>k\<close>, bit \<open>j\<close> of byte
  \<open>b\<close> is set exactly when value \<open>8 * b + j\<close> has been seen and is true.
\<close>

lemma packBooleans_invariant:
  assumes "k \<le> length values"
  defines "n \<equiv> (length values + 7) div 8"
  shows "length (fold (packStep values) [0..<k] (replicate n 0)) = n \<and>
         (\<forall>b j. b < n \<longrightarrow> j < 8 \<longrightarrow>
            bit (fold (packStep values) [0..<k] (replicate n 0) ! b) j
              = (8 * b + j < k \<and> values ! (8 * b + j)))"
  using assms(1)
proof (induction k)
  case 0
  show ?case by simp
next
  case (Suc k)
  let ?bs = "fold (packStep values) [0..<k] (replicate n 0)"
  from Suc have len: "length ?bs = n"
    and bits: "\<And>b j. b < n \<Longrightarrow> j < 8 \<Longrightarrow>
                 bit (?bs ! b) j = (8 * b + j < k \<and> values ! (8 * b + j))"
    by simp_all
  from Suc.prems have kdiv: "k div 8 < n"
    unfolding n_def by (simp add: byte_index_bound)
  have "bit (packStep values k ?bs ! b) j = (8 * b + j < Suc k \<and> values ! (8 * b + j))"
    if "b < n" "j < 8" for b j
  proof -
    have "bit (packStep values k ?bs ! b) j =
          (bit (?bs ! b) j \<or> (values ! k \<and> b = k div 8 \<and> j = k mod 8))"
      using bit_packStep[of k "?bs" b j "values"] kdiv that len by simp
    also have "\<dots> = (8 * b + j < Suc k \<and> values ! (8 * b + j))"
      using that bits[of b j] index_split[of j b k] by auto
    finally show ?thesis .
  qed
  then show ?case by (simp add: len length_packStep)
qed

lemma lowest_bit_test: "((drop_bit m (w :: byte) AND 1) = 1) = bit w m"
  by (simp add: bit_iff_and_drop_bit_eq_1)

lemma unpack_pack: "unpackBooleans (packBooleans values) (length values) = values"
proof (rule nth_equalityI)
  show "length (unpackBooleans (packBooleans values) (length values)) = length values"
    by (simp add: unpackBooleans_def)
next
  fix i assume "i < length (unpackBooleans (packBooleans values) (length values))"
  then have i: "i < length values" by (simp add: unpackBooleans_def)
  let ?n = "(length values + 7) div 8"
  have len: "length (packBooleans values) = ?n"
    and bits: "\<And>b j. b < ?n \<Longrightarrow> j < 8 \<Longrightarrow>
        bit (packBooleans values ! b) j = (8 * b + j < length values \<and> values ! (8 * b + j))"
    using packBooleans_invariant[of "length values" "values"]
    by (simp_all add: packBooleans_def)
  from i have d: "i div 8 < ?n" by (rule byte_index_bound)
  have "bit (packBooleans values ! (i div 8)) (i mod 8) = values ! i"
    using bits[OF d, of "i mod 8"] i by simp
  then show "unpackBooleans (packBooleans values) (length values) ! i = values ! i"
    using i d len by (simp add: unpackBooleans_def lowest_bit_test)
qed

lemma pack_example:
  "packBooleans [True, False, True, True, False, False, True, False] = [0x4D]"
  by (simp add: packBooleans_def packStep_def upt_rec)

text \<open>
  C9. Booleans are packed eight per byte, least significant bit first: the eight values
  true, false, true, true, false, false, true, false give the single byte 0b01001101
  (0x4D), and unpacking the packed bytes with the original count gives back the original
  list, for every list of booleans.
\<close>

theorem C9_pack_unpack:
  "packBooleans [True, False, True, True, False, False, True, False] = [0x4D] \<and>
   unpackBooleans (packBooleans values) (length values) = values"
  by (simp only: pack_example unpack_pack simp_thms)

section \<open>Header framing\<close>

lemma uint_byte_of_int: "uint (word_of_int x :: byte) = take_bit 8 x"
  by (simp add: uint_word_of_int take_bit_eq_mod)

lemma version_fits_10_bits: "0 \<le> v \<Longrightarrow> v \<le> 1023 \<Longrightarrow> take_bit 10 (v::int) = v"
  by (simp add: take_bit_int_eq_self)

lemma bit_64: "bit (64::int) k = (k = 6)"
  using bit_exp_iff[where ?'a=int, of 6 k] by simp

lemma bit_16: "bit (16::int) k = (k = 4)"
  using bit_exp_iff[where ?'a=int, of 4 k] by simp

lemma bit_32: "bit (32::int) k = (k = 5)"
  using bit_exp_iff[where ?'a=int, of 5 k] by simp

lemma header_version_bits:
  fixes v :: int
  assumes "take_bit 10 v = v"
  shows "(take_bit 8 ((v AND 0x3F) OR (if c then push_bit 6 1 else 0)) AND 0x3F) OR
         push_bit 6 (take_bit 8 ((((drop_bit 6 v) AND 0x0F) OR (if s then push_bit 4 1 else 0))
                                  OR (if b then push_bit 5 1 else 0)) AND 0x0F) = v"
proof -
  have m63: "(63::int) = mask 6" and m15: "(15::int) = mask 4"
    by (simp_all add: mask_eq_exp_minus_1)
  have "bit (take_bit 10 v) n =
        bit ((take_bit 8 ((v AND 0x3F) OR (if c then push_bit 6 1 else 0)) AND 0x3F) OR
             push_bit 6 (take_bit 8 ((((drop_bit 6 v) AND 0x0F)
                                       OR (if s then push_bit 4 1 else 0))
                                      OR (if b then push_bit 5 1 else 0)) AND 0x0F)) n" for n
    unfolding m63 m15
    by (cases "6 \<le> n") (auto simp: bit_simps bit_64 bit_16 bit_32)
  then show ?thesis using assms by (simp add: bit_eq_iff)
qed

lemma header_flag_bits:
  fixes v :: int
  shows "(take_bit 8 ((v AND 0x3F) OR (if c then push_bit 6 1 else 0)) AND push_bit 6 1 \<noteq> 0) = c"
    and "(take_bit 8 ((((drop_bit 6 v) AND 0x0F) OR (if s then push_bit 4 1 else 0))
                       OR (if b then push_bit 5 1 else 0)) AND push_bit 4 1 \<noteq> 0) = s"
    and "(take_bit 8 ((((drop_bit 6 v) AND 0x0F) OR (if s then push_bit 4 1 else 0))
                       OR (if b then push_bit 5 1 else 0)) AND push_bit 5 1 \<noteq> 0) = b"
proof -
  have m63: "(63::int) = mask 6" and m15: "(15::int) = mask 4"
    by (simp_all add: mask_eq_exp_minus_1)
  show "(take_bit 8 ((v AND 0x3F) OR (if c then push_bit 6 1 else 0)) AND push_bit 6 1 \<noteq> 0) = c"
    unfolding m63 bit_iff_and_push_bit_not_eq_0[symmetric]
    by (auto simp: bit_simps bit_64)
  show "(take_bit 8 ((((drop_bit 6 v) AND 0x0F) OR (if s then push_bit 4 1 else 0))
                      OR (if b then push_bit 5 1 else 0)) AND push_bit 4 1 \<noteq> 0) = s"
    unfolding m15 bit_iff_and_push_bit_not_eq_0[symmetric]
    by (auto simp: bit_simps bit_16 bit_32)
  show "(take_bit 8 ((((drop_bit 6 v) AND 0x0F) OR (if s then push_bit 4 1 else 0))
                      OR (if b then push_bit 5 1 else 0)) AND push_bit 5 1 \<noteq> 0) = b"
    unfolding m15 bit_iff_and_push_bit_not_eq_0[symmetric]
    by (auto simp: bit_simps bit_16 bit_32)
qed

text \<open>The two header bytes \<^verbatim>\<open>encodeWithHeader\<close> writes for a version inside the domain.\<close>

lemma encodeWithHeader_bytes:
  assumes "0 \<le> v" "v \<le> 1023"
  shows "encodeWithHeader pl v options =
         Inr (word_of_int ((v AND 0x3F) OR (if compressed options then push_bit 6 1 else 0))
              # word_of_int ((((drop_bit 6 v) AND 0x0F)
                                OR (if stringDictionary options = Some True
                                    then push_bit 4 1 else 0))
                               OR (if booleanPacking options = Some True
                                   then push_bit 5 1 else 0))
              # pl)"
  using assms
  by (simp add: encodeWithHeader_def Let_def
      FLAGS_COMPRESSED_def FLAGS_STRING_DICTIONARY_def FLAGS_BOOLEAN_PACKING_def)

lemma decodeWithHeader_bytes:
  "decodeWithHeader (word_of_int b0 # word_of_int b1 # pl) =
     Inr \<lparr> version = (take_bit 8 b0 AND 0x3F) OR push_bit 6 (take_bit 8 b1 AND 0x0F),
           isCompressed = (take_bit 8 b0 AND push_bit 6 1 \<noteq> 0),
           hasStringDictionary = (take_bit 8 b1 AND push_bit 4 1 \<noteq> 0),
           hasBooleanPacking = (take_bit 8 b1 AND push_bit 5 1 \<noteq> 0),
           payload = pl \<rparr>"
  by (simp add: decodeWithHeader_def Let_def uint_byte_of_int
      FLAGS_COMPRESSED_def FLAGS_STRING_DICTIONARY_def FLAGS_BOOLEAN_PACKING_def)

lemma header_roundtrip:
  assumes "0 \<le> v" "v \<le> 1023"
  shows "\<exists>framed. encodeWithHeader pl v options = Inr framed \<and>
           decodeWithHeader framed =
             Inr \<lparr> version = v,
                   isCompressed = compressed options,
                   hasStringDictionary = (stringDictionary options = Some True),
                   hasBooleanPacking = (booleanPacking options = Some True),
                   payload = pl \<rparr>"
proof -
  have tb: "take_bit 10 v = v" using assms by (rule version_fits_10_bits)
  show ?thesis
    unfolding encodeWithHeader_bytes[OF assms]
    by (simp only: decodeWithHeader_bytes header_version_bits[OF tb] header_flag_bits
                   sum.inject simp_thms ex_simps)
qed

text \<open>
  C8. For every payload, every version from 0 to 1023 and every combination of the three
  flags, unframing the framed bytes gives back the version, the three flags and the
  payload.
\<close>

theorem C8_header_roundtrip:
  assumes "0 \<le> v" "v \<le> 1023"
  shows "\<exists>framed.
           encodeWithHeader pl v
             \<lparr> compressed = c, stringDictionary = Some s, booleanPacking = Some b \<rparr>
             = Inr framed \<and>
           decodeWithHeader framed =
             Inr \<lparr> version = v, isCompressed = c, hasStringDictionary = s,
                   hasBooleanPacking = b, payload = pl \<rparr>"
  using header_roundtrip[OF assms, of pl
          "\<lparr> compressed = c, stringDictionary = Some s, booleanPacking = Some b \<rparr>"]
  by simp

theorem C8_header_roundtrip_witness:
  "(0::int) \<le> 581 \<and> (581::int) \<le> 1023 \<and>
   (\<exists>framed.
      encodeWithHeader [0x0A, 0xFF] 581
        \<lparr> compressed = True, stringDictionary = Some False, booleanPacking = Some True \<rparr>
        = Inr framed \<and>
      decodeWithHeader framed =
        Inr \<lparr> version = 581, isCompressed = True, hasStringDictionary = False,
              hasBooleanPacking = True, payload = [0x0A, 0xFF] \<rparr>)"
  using C8_header_roundtrip[of 581 "[0x0A, 0xFF]" True False True]
  by simp

section \<open>Migrations\<close>

declare upgradeLoop.simps [simp del] downgradeLoop.simps [simp del]

lemma arrayGet_present:
  "arrayGet xs i \<noteq> None \<Longrightarrow> 0 \<le> i \<and> i < int (length xs)"
  by (auto simp: arrayGet_def split: if_splits)

lemma upgradeLoop_present:
  "list_all (\<lambda>u. arrayGet ms (u - 1) \<noteq> None) [v..t - 1] \<Longrightarrow>
   upgradeLoop ms c t v d = Inr (fold (\<lambda>u. up (the (arrayGet ms (u - 1)))) [v..t - 1] d)"
proof (induction ms c t v d rule: upgradeLoop.induct)
  case (1 ms c t v d)
  show ?case
  proof (cases "v < t")
    case False
    then show ?thesis by (simp add: upgradeLoop.simps[of ms c t v d])
  next
    case True
    then have unfold: "[v..t - 1] = v # [v + 1..t - 1]" by (simp add: upto_rec1)
    with "1.prems" have here: "arrayGet ms (v - 1) \<noteq> None"
      and rest: "list_all (\<lambda>u. arrayGet ms (u - 1) \<noteq> None) [v + 1..t - 1]"
      by simp_all
    from arrayGet_present[OF here] have inside: "\<not> int (length ms) \<le> v - 1" by simp
    from here obtain m where some: "arrayGet ms (v - 1) = Some m" by auto
    have "upgradeLoop ms c t v d =
          upgradeLoop ms c t (v + 1) (up (the (arrayGet ms (v - 1))) d)"
      using True inside by (subst upgradeLoop.simps) (simp add: Let_def some)
    also have "\<dots> = Inr (fold (\<lambda>u. up (the (arrayGet ms (u - 1)))) [v + 1..t - 1]
                          (up (the (arrayGet ms (v - 1))) d))"
      using "1.IH"[OF True refl _ rest] here inside by simp
    finally show ?thesis by (simp add: unfold)
  qed
qed

lemma upgradeLoop_missing:
  "v \<le> w \<Longrightarrow> w < t \<Longrightarrow> list_all (\<lambda>u. arrayGet ms (u - 1) \<noteq> None) [v..w - 1] \<Longrightarrow>
   arrayGet ms (w - 1) = None \<Longrightarrow>
   upgradeLoop ms c t v d = Inl (missingUpgrade w c t)"
proof (induction ms c t v d rule: upgradeLoop.induct)
  case (1 ms c t v d)
  show ?case
  proof (cases "v = w")
    case True
    with "1.prems" show ?thesis by (simp add: upgradeLoop.simps[of ms c t w d] Let_def)
  next
    case False
    with "1.prems" have lt: "v < w" and vt: "v < t" by simp_all
    then have unfold: "[v..w - 1] = v # [v + 1..w - 1]" by (simp add: upto_rec1)
    with "1.prems" have here: "arrayGet ms (v - 1) \<noteq> None"
      and rest: "list_all (\<lambda>u. arrayGet ms (u - 1) \<noteq> None) [v + 1..w - 1]"
      by simp_all
    from arrayGet_present[OF here] have inside: "\<not> int (length ms) \<le> v - 1" by simp
    from here obtain m where some: "arrayGet ms (v - 1) = Some m" by auto
    have "upgradeLoop ms c t v d =
          upgradeLoop ms c t (v + 1) (up (the (arrayGet ms (v - 1))) d)"
      using vt inside by (subst upgradeLoop.simps) (simp add: Let_def some)
    also have "\<dots> = Inl (missingUpgrade w c t)"
      using "1.IH"[OF vt refl _ _ "1.prems"(2) rest "1.prems"(4)] here inside lt by simp
    finally show ?thesis .
  qed
qed

lemma downgradeLoop_present:
  "list_all (\<lambda>u. arrayGet ms (u - 2) \<noteq> None) [t + 1..v] \<Longrightarrow>
   downgradeLoop ms c t v d = Inr (fold (\<lambda>u. down (the (arrayGet ms (u - 2)))) (rev [t + 1..v]) d)"
proof (induction ms c t v d rule: downgradeLoop.induct)
  case (1 ms c t v d)
  show ?case
  proof (cases "t < v")
    case False
    then show ?thesis by (simp add: downgradeLoop.simps[of ms c t v d])
  next
    case True
    then have unfold: "[t + 1..v] = [t + 1..v - 1] @ [v]" by (simp add: upto_rec2)
    with "1.prems" have here: "arrayGet ms (v - 2) \<noteq> None"
      and rest: "list_all (\<lambda>u. arrayGet ms (u - 2) \<noteq> None) [t + 1..v - 1]"
      by simp_all
    from arrayGet_present[OF here]
    have inside: "\<not> v - 2 < 0" "\<not> int (length ms) \<le> v - 2" by simp_all
    from here obtain m where some: "arrayGet ms (v - 2) = Some m" by auto
    have "downgradeLoop ms c t v d =
          downgradeLoop ms c t (v - 1) (down (the (arrayGet ms (v - 2))) d)"
      using True inside by (subst downgradeLoop.simps) (simp add: Let_def some)
    also have "\<dots> = Inr (fold (\<lambda>u. down (the (arrayGet ms (u - 2)))) (rev [t + 1..v - 1])
                          (down (the (arrayGet ms (v - 2))) d))"
      using "1.IH"[OF _ refl _ rest] True here inside by simp
    finally show ?thesis by (simp add: unfold)
  qed
qed

lemma downgradeLoop_missing:
  "t < w \<Longrightarrow> w \<le> v \<Longrightarrow> list_all (\<lambda>u. arrayGet ms (u - 2) \<noteq> None) [w + 1..v] \<Longrightarrow>
   arrayGet ms (w - 2) = None \<Longrightarrow>
   downgradeLoop ms c t v d = Inl (missingDowngrade w c t)"
proof (induction ms c t v d rule: downgradeLoop.induct)
  case (1 ms c t v d)
  show ?case
  proof (cases "v = w")
    case True
    with "1.prems" show ?thesis by (simp add: downgradeLoop.simps[of ms c t w d] Let_def)
  next
    case False
    with "1.prems" have lt: "w < v" and vt: "t < v" by simp_all
    then have unfold: "[w + 1..v] = [w + 1..v - 1] @ [v]" by (simp add: upto_rec2)
    with "1.prems" have here: "arrayGet ms (v - 2) \<noteq> None"
      and rest: "list_all (\<lambda>u. arrayGet ms (u - 2) \<noteq> None) [w + 1..v - 1]"
      by simp_all
    from arrayGet_present[OF here]
    have inside: "\<not> v - 2 < 0" "\<not> int (length ms) \<le> v - 2" by simp_all
    from here obtain m where some: "arrayGet ms (v - 2) = Some m" by auto
    have "downgradeLoop ms c t v d =
          downgradeLoop ms c t (v - 1) (down (the (arrayGet ms (v - 2))) d)"
      using vt inside by (subst downgradeLoop.simps) (simp add: Let_def some)
    also have "\<dots> = Inl (missingDowngrade w c t)"
      using "1.IH"[OF _ refl _ "1.prems"(1) _ rest "1.prems"(4)] vt here inside lt by simp
    finally show ?thesis .
  qed
qed


lemma applyMigrations_decoded:
  assumes "decodeWithVersion L encoded sourceSchema = Inr (data, c)"
  shows "applyMigrations L encoded sourceSchema targetSchema t ms =
           (if c = t then encode L data targetSchema t
            else case (if c < t then upgradeLoop ms c t c data
                       else downgradeLoop ms c t c data) of
                   Inl e \<Rightarrow> Inl e
                 | Inr migrated \<Rightarrow> encode L migrated targetSchema t)"
  using assms by (simp add: applyMigrations_def extractVersionAndData_def)

lemma applyMigrations_up:
  assumes "decodeWithVersion L encoded sourceSchema = Inr (data, c)"
    and "c < t"
    and "list_all (\<lambda>v. arrayGet ms (v - 1) \<noteq> None) [c..t - 1]"
  shows "applyMigrations L encoded sourceSchema targetSchema t ms =
           encode L (fold (\<lambda>v. up (the (arrayGet ms (v - 1)))) [c..t - 1] data) targetSchema t"
  using assms(2) upgradeLoop_present[OF assms(3), of c data]
  by (simp add: applyMigrations_decoded[OF assms(1)])

lemma applyMigrations_down:
  assumes "decodeWithVersion L encoded sourceSchema = Inr (data, c)"
    and "t < c"
    and "list_all (\<lambda>v. arrayGet ms (v - 2) \<noteq> None) [t + 1..c]"
  shows "applyMigrations L encoded sourceSchema targetSchema t ms =
           encode L (fold (\<lambda>v. down (the (arrayGet ms (v - 2)))) (rev [t + 1..c]) data)
             targetSchema t"
  using assms(2) downgradeLoop_present[OF assms(3), of c data]
  by (simp add: applyMigrations_decoded[OF assms(1)])

lemma encode_validates:
  assumes "validateSchema schema = Inr ()" and "zod_parse L schema data = Inl e"
  shows "encode L data schema ver = Inl e"
  using assms by (simp add: encode_def encodeInternal_def encodeBinary_def)

text \<open>
  C2. Let the token decode to a value at version \<open>c\<close>. If \<open>c < t\<close> and every hop
  \<open>c..t-1\<close> is present, the token produced is the encoding, under the target schema and
  version, of the value after \<open>migrations[v-1].up\<close> for \<open>v = c, ..., t-1\<close> in increasing
  order; if \<open>c > t\<close> and every hop is present, of the value after \<open>migrations[v-2].down\<close>
  for \<open>v = c, ..., t+1\<close> in decreasing order; if \<open>c = t\<close>, of the value itself, with no
  transform applied, and that encoding still validates the value against the target
  schema. With the two migrations v1-v2 and v2-v3, going from 1 to 3 applies the two
  \<open>up\<close> functions in sequence, and going from 3 to 1 the two \<open>down\<close> functions.
\<close>

theorem C2_migration_chain:
  assumes "decodeWithVersion L encoded sourceSchema = Inr (data, c)"
  shows "(c < t \<and> list_all (\<lambda>v. arrayGet ms (v - 1) \<noteq> None) [c..t - 1] \<longrightarrow>
            applyMigrations L encoded sourceSchema targetSchema t ms =
              encode L (fold (\<lambda>v. up (the (arrayGet ms (v - 1)))) [c..t - 1] data)
                targetSchema t) \<and>
         (t < c \<and> list_all (\<lambda>v. arrayGet ms (v - 2) \<noteq> None) [t + 1..c] \<longrightarrow>
            applyMigrations L encoded sourceSchema targetSchema t ms =
              encode L (fold (\<lambda>v. down (the (arrayGet ms (v - 2)))) (rev [t + 1..c]) data)
                targetSchema t) \<and>
         (c = t \<longrightarrow>
            applyMigrations L encoded sourceSchema targetSchema t ms =
              encode L data targetSchema t \<and>
            (\<forall>e. validateSchema targetSchema = Inr () \<and>
                  zod_parse L targetSchema data = Inl e \<longrightarrow>
                  applyMigrations L encoded sourceSchema targetSchema t ms = Inl e)) \<and>
         (c = 1 \<longrightarrow>
            applyMigrations L encoded sourceSchema targetSchema 3 [Some m1, Some m2] =
              encode L (up m2 (up m1 data)) targetSchema 3) \<and>
         (c = 3 \<longrightarrow>
            applyMigrations L encoded sourceSchema targetSchema 1 [Some m1, Some m2] =
              encode L (down m1 (down m2 data)) targetSchema 1)"
proof (intro conjI impI)
  assume "c < t \<and> list_all (\<lambda>v. arrayGet ms (v - 1) \<noteq> None) [c..t - 1]"
  then show "applyMigrations L encoded sourceSchema targetSchema t ms =
      encode L (fold (\<lambda>v. up (the (arrayGet ms (v - 1)))) [c..t - 1] data) targetSchema t"
    using applyMigrations_up[OF assms] by blast
next
  assume "t < c \<and> list_all (\<lambda>v. arrayGet ms (v - 2) \<noteq> None) [t + 1..c]"
  then show "applyMigrations L encoded sourceSchema targetSchema t ms =
      encode L (fold (\<lambda>v. down (the (arrayGet ms (v - 2)))) (rev [t + 1..c]) data)
        targetSchema t"
    using applyMigrations_down[OF assms] by blast
next
  assume "c = t"
  then show same: "applyMigrations L encoded sourceSchema targetSchema t ms =
      encode L data targetSchema t"
    by (simp add: applyMigrations_decoded[OF assms])
  show "\<forall>e. validateSchema targetSchema = Inr () \<and> zod_parse L targetSchema data = Inl e \<longrightarrow>
          applyMigrations L encoded sourceSchema targetSchema t ms = Inl e"
    using same encode_validates by simp
next
  assume c: "c = 1"
  have present: "list_all (\<lambda>v. arrayGet [Some m1, Some m2] (v - 1) \<noteq> None) [c..3 - 1]"
    unfolding c by (simp add: arrayGet_def upto_rec1)
  show "applyMigrations L encoded sourceSchema targetSchema 3 [Some m1, Some m2] =
      encode L (up m2 (up m1 data)) targetSchema 3"
    using applyMigrations_up[OF assms _ present, of targetSchema] c
    by (simp add: arrayGet_def upto_rec1)
next
  assume c: "c = 3"
  have present: "list_all (\<lambda>v. arrayGet [Some m1, Some m2] (v - 2) \<noteq> None) [1 + 1..c]"
    unfolding c by (simp add: arrayGet_def upto_rec1)
  show "applyMigrations L encoded sourceSchema targetSchema 1 [Some m1, Some m2] =
      encode L (down m1 (down m2 data)) targetSchema 1"
    using applyMigrations_down[OF assms _ present, of targetSchema] c
    by (simp add: arrayGet_def upto_rec1)
qed


theorem C2_migration_chain_witness:
  "decodeWithVersion ref_libs ''ABIFQWxpY2U'' schemaV1 = Inr (alice, 1) \<and>
   (1::int) < 3 \<and>
   list_all (\<lambda>v. arrayGet [Some v1ToV2, Some v2ToV3] (v - 1) \<noteq> None) [1..3 - 1] \<and>
   applyMigrations ref_libs ''ABIFQWxpY2U'' schemaV1 schemaV3 3 [Some v1ToV2, Some v2ToV3] =
     encode ref_libs (up v2ToV3 (up v1ToV2 alice)) schemaV3 3 \<and>
   applyMigrations ref_libs ''ABIFQWxpY2U'' schemaV1 schemaV3 3 [Some v1ToV2, Some v2ToV3] =
     Inr ''AAgDEgVBbGljZRoTZGVmYXVsdEBleGFtcGxlLmNvbSIEdXNlcg'' \<and>
   applyMigrations ref_libs ''ABIFQWxpY2U'' schemaV1 schemaV1 1 [Some v1ToV2, Some v2ToV3] =
     encode ref_libs alice schemaV1 1 \<and>
   decodeWithVersion ref_libs ''AAgDEgVBbGljZRoTZGVmYXVsdEBleGFtcGxlLmNvbSIEdXNlcg'' schemaV3 =
     Inr (aliceV3, 3) \<and>
   (1::int) < 3 \<and>
   list_all (\<lambda>v. arrayGet [Some v1ToV2, Some v2ToV3] (v - 2) \<noteq> None) [1 + 1..3] \<and>
   applyMigrations ref_libs ''AAgDEgVBbGljZRoTZGVmYXVsdEBleGFtcGxlLmNvbSIEdXNlcg'' schemaV3
       schemaV1 1 [Some v1ToV2, Some v2ToV3] =
     encode ref_libs (down v1ToV2 (down v2ToV3 aliceV3)) schemaV1 1 \<and>
   applyMigrations ref_libs ''AAgDEgVBbGljZRoTZGVmYXVsdEBleGFtcGxlLmNvbSIEdXNlcg'' schemaV3
       schemaV1 1 [Some v1ToV2, Some v2ToV3] = Inr ''ABIFQWxpY2U''"
proof -
  let ?ms = "[Some v1ToV2, Some v2ToV3]"
  have d1: "decodeWithVersion ref_libs ''ABIFQWxpY2U'' schemaV1 = Inr (alice, 1)"
    by code_simp
  have d3: "decodeWithVersion ref_libs ''AAgDEgVBbGljZRoTZGVmYXVsdEBleGFtcGxlLmNvbSIEdXNlcg''
              schemaV3 = Inr (aliceV3, 3)"
    by code_simp
  have p1: "list_all (\<lambda>v. arrayGet ?ms (v - 1) \<noteq> None) [1..3 - 1]"
    by code_simp
  have p3: "list_all (\<lambda>v. arrayGet ?ms (v - 2) \<noteq> None) [1 + 1..3]"
    by code_simp
  have f1: "fold (\<lambda>v. up (the (arrayGet ?ms (v - 1)))) [1..3 - 1] alice
            = up v2ToV3 (up v1ToV2 alice)"
    by code_simp
  have f3: "fold (\<lambda>v. down (the (arrayGet ?ms (v - 2)))) (rev [1 + 1..3]) aliceV3
            = down v1ToV2 (down v2ToV3 aliceV3)"
    by code_simp
  have e1: "encode ref_libs (up v2ToV3 (up v1ToV2 alice)) schemaV3 3
            = Inr ''AAgDEgVBbGljZRoTZGVmYXVsdEBleGFtcGxlLmNvbSIEdXNlcg''"
    by code_simp
  have e3: "encode ref_libs (down v1ToV2 (down v2ToV3 aliceV3)) schemaV1 1 = Inr ''ABIFQWxpY2U''"
    by code_simp
  have up13: "applyMigrations ref_libs ''ABIFQWxpY2U'' schemaV1 schemaV3 3 ?ms =
              encode ref_libs (up v2ToV3 (up v1ToV2 alice)) schemaV3 3"
    using C2_migration_chain[OF d1, of 3 ?ms schemaV3] p1 f1 by simp
  have same: "applyMigrations ref_libs ''ABIFQWxpY2U'' schemaV1 schemaV1 1 ?ms =
              encode ref_libs alice schemaV1 1"
    using C2_migration_chain[OF d1, of 1 ?ms schemaV1] by simp
  have down31: "applyMigrations ref_libs ''AAgDEgVBbGljZRoTZGVmYXVsdEBleGFtcGxlLmNvbSIEdXNlcg''
                  schemaV3 schemaV1 1 ?ms =
                encode ref_libs (down v1ToV2 (down v2ToV3 aliceV3)) schemaV1 1"
    using C2_migration_chain[OF d3, of 1 ?ms schemaV1] p3 f3 by simp
  show ?thesis
    using d1 d3 p1 p3 up13 same down31 e1 e3 by simp
qed

text \<open>
  C3. Let the token decode to a value at version \<open>c\<close>. When the first hop that is absent
  on the way up is the one from \<open>w\<close> to \<open>w + 1\<close>, or on the way down the one from \<open>w\<close> to
  \<open>w - 1\<close>, the result is a \<open>VersionMismatchError\<close> whose message names exactly these
  two versions, and no token is produced. From version 1 to version 3 with an empty
  migrations array the message names version 1 to 2.
\<close>

theorem C3_missing_hop:
  assumes "decodeWithVersion L encoded sourceSchema = Inr (data, c)"
  shows "(c \<le> w \<and> w < t \<and> list_all (\<lambda>v. arrayGet ms (v - 1) \<noteq> None) [c..w - 1] \<and>
          arrayGet ms (w - 1) = None \<longrightarrow>
            applyMigrations L encoded sourceSchema targetSchema t ms =
              Inl (VersionMismatchError
                    (''Missing migration from version '' @ stringOfInt w @ '' to ''
                     @ stringOfInt (w + 1) @ ''. Cannot upgrade from v'' @ stringOfInt c
                     @ '' to v'' @ stringOfInt t @ ''.''))) \<and>
         (t < w \<and> w \<le> c \<and> list_all (\<lambda>v. arrayGet ms (v - 2) \<noteq> None) [w + 1..c] \<and>
          arrayGet ms (w - 2) = None \<longrightarrow>
            applyMigrations L encoded sourceSchema targetSchema t ms =
              Inl (VersionMismatchError
                    (''Missing migration from version '' @ stringOfInt w @ '' to ''
                     @ stringOfInt (w - 1) @ ''. Cannot downgrade from v'' @ stringOfInt c
                     @ '' to v'' @ stringOfInt t @ ''.''))) \<and>
         (c = 1 \<longrightarrow>
            applyMigrations L encoded sourceSchema targetSchema 3 [] =
              Inl (VersionMismatchError
                    ''Missing migration from version 1 to 2. Cannot upgrade from v1 to v3.''))"
proof (intro conjI impI)
  assume h: "c \<le> w \<and> w < t \<and> list_all (\<lambda>v. arrayGet ms (v - 1) \<noteq> None) [c..w - 1] \<and>
             arrayGet ms (w - 1) = None"
  then have "upgradeLoop ms c t c data = Inl (missingUpgrade w c t)"
    using upgradeLoop_missing[of c w t ms c data] by blast
  with h show "applyMigrations L encoded sourceSchema targetSchema t ms =
      Inl (VersionMismatchError
            (''Missing migration from version '' @ stringOfInt w @ '' to ''
             @ stringOfInt (w + 1) @ ''. Cannot upgrade from v'' @ stringOfInt c
             @ '' to v'' @ stringOfInt t @ ''.''))"
    by (simp add: applyMigrations_decoded[OF assms] missingUpgrade_def)
next
  assume h: "t < w \<and> w \<le> c \<and> list_all (\<lambda>v. arrayGet ms (v - 2) \<noteq> None) [w + 1..c] \<and>
             arrayGet ms (w - 2) = None"
  then have "downgradeLoop ms c t c data = Inl (missingDowngrade w c t)"
    using downgradeLoop_missing[of t w c ms c data] by blast
  with h show "applyMigrations L encoded sourceSchema targetSchema t ms =
      Inl (VersionMismatchError
            (''Missing migration from version '' @ stringOfInt w @ '' to ''
             @ stringOfInt (w - 1) @ ''. Cannot downgrade from v'' @ stringOfInt c
             @ '' to v'' @ stringOfInt t @ ''.''))"
    by (simp add: applyMigrations_decoded[OF assms] missingDowngrade_def)
next
  assume c: "c = 1"
  have "upgradeLoop [] 1 3 1 data = Inl (missingUpgrade 1 1 3)"
    using upgradeLoop_missing[of 1 1 3 "[]" 1 data] by (simp add: arrayGet_def)
  moreover have "missingUpgrade 1 1 3 =
      VersionMismatchError ''Missing migration from version 1 to 2. Cannot upgrade from v1 to v3.''"
    by code_simp
  ultimately show "applyMigrations L encoded sourceSchema targetSchema 3 [] =
      Inl (VersionMismatchError
            ''Missing migration from version 1 to 2. Cannot upgrade from v1 to v3.'')"
    using c by (simp add: applyMigrations_decoded[OF assms])
qed

theorem C3_missing_hop_witness:
  "decodeWithVersion ref_libs ''ABIFQWxpY2U'' schemaV1 = Inr (alice, 1) \<and>
   (1::int) \<le> 2 \<and> (2::int) < 3 \<and>
   list_all (\<lambda>v. arrayGet [Some v1ToV2] (v - 1) \<noteq> None) [1..2 - 1] \<and>
   arrayGet [Some v1ToV2] (2 - 1) = None \<and>
   applyMigrations ref_libs ''ABIFQWxpY2U'' schemaV1 schemaV3 3 [Some v1ToV2] =
     Inl (VersionMismatchError
           ''Missing migration from version 2 to 3. Cannot upgrade from v1 to v3.'') \<and>
   applyMigrations ref_libs ''ABIFQWxpY2U'' schemaV1 schemaV3 3 [] =
     Inl (VersionMismatchError
           ''Missing migration from version 1 to 2. Cannot upgrade from v1 to v3.'') \<and>
   decodeWithVersion ref_libs ''AAgDEgVBbGljZRoTZGVmYXVsdEBleGFtcGxlLmNvbSIEdXNlcg'' schemaV3 =
     Inr (aliceV3, 3) \<and>
   (1::int) < 3 \<and> (3::int) \<le> 3 \<and>
   list_all (\<lambda>v. arrayGet [Some v2ToV3] (v - 2) \<noteq> None) [3 + 1..3] \<and>
   arrayGet [Some v2ToV3] (3 - 2) = None \<and>
   applyMigrations ref_libs ''AAgDEgVBbGljZRoTZGVmYXVsdEBleGFtcGxlLmNvbSIEdXNlcg'' schemaV3
       schemaV1 1 [Some v2ToV3] =
     Inl (VersionMismatchError
           ''Missing migration from version 3 to 2. Cannot downgrade from v3 to v1.'')"
proof -
  have d1: "decodeWithVersion ref_libs ''ABIFQWxpY2U'' schemaV1 = Inr (alice, 1)"
    by code_simp
  have d3: "decodeWithVersion ref_libs ''AAgDEgVBbGljZRoTZGVmYXVsdEBleGFtcGxlLmNvbSIEdXNlcg''
              schemaV3 = Inr (aliceV3, 3)"
    by code_simp
  have p1: "list_all (\<lambda>v. arrayGet [Some v1ToV2] (v - 1) \<noteq> None) [1..2 - 1]"
    and n1: "arrayGet [Some v1ToV2] (2 - 1) = None"
    and p3: "list_all (\<lambda>v. arrayGet [Some v2ToV3] (v - 2) \<noteq> None) [3 + 1..3]"
    and n3: "arrayGet [Some v2ToV3] (3 - 2) = None"
    by code_simp+
  have s: "stringOfInt 1 = ''1''" "stringOfInt 2 = ''2''" "stringOfInt 3 = ''3''"
    "stringOfInt (2 + 1) = ''3''" "stringOfInt (3 - 1) = ''2''"
    by code_simp+
  have up: "applyMigrations ref_libs ''ABIFQWxpY2U'' schemaV1 schemaV3 3 [Some v1ToV2] =
     Inl (VersionMismatchError
           ''Missing migration from version 2 to 3. Cannot upgrade from v1 to v3.'')"
    using C3_missing_hop[OF d1, of 2 3 "[Some v1ToV2]" schemaV3] p1 n1 s by simp
  have empty: "applyMigrations ref_libs ''ABIFQWxpY2U'' schemaV1 schemaV3 3 [] =
     Inl (VersionMismatchError
           ''Missing migration from version 1 to 2. Cannot upgrade from v1 to v3.'')"
    using C3_missing_hop[OF d1, of 2 3 "[Some v1ToV2]" schemaV3] by simp
  have down: "applyMigrations ref_libs ''AAgDEgVBbGljZRoTZGVmYXVsdEBleGFtcGxlLmNvbSIEdXNlcg''
       schemaV3 schemaV1 1 [Some v2ToV3] =
     Inl (VersionMismatchError
           ''Missing migration from version 3 to 2. Cannot downgrade from v3 to v1.'')"
    using C3_missing_hop[OF d3, of 3 1 "[Some v2ToV3]" schemaV1] p3 n3 s by simp
  show ?thesis
    using d1 d3 p1 n1 p3 n3 up empty down by simp
qed

section \<open>Encoder and decoder\<close>

lemma encodeInternal_Inr:
  assumes "encodeInternal L data schema ver = Inr token"
  shows "\<exists>binary compressed.
           encodeBinary L data schema ver = Inr binary \<and>
           compress L binary = Inr compressed \<and>
           token = encodeBase64Url L
                     ((if length compressed < length binary then 0x01 else 0x00)
                      # (if length compressed < length binary then compressed else binary))"
  using assms
  by (auto simp: encodeInternal_def finalBinary_def split: sum.splits)

lemma decodeInternal_marker:
  assumes "validateSchema schema = Inr ()"
    and "decodeBase64Url L encoded = Inr (marker # rest)"
  shows "decodeInternal L encoded schema =
           (if marker = 0x01 then
              (case decompress L rest of
                 Inl e \<Rightarrow> Inl e
               | Inr binary \<Rightarrow> decodeBinary L schema binary)
            else if marker = 0x00 then decodeBinary L schema rest
            else Inl (DecodingError (''Invalid compression marker: '' @ stringOfNat (unat marker)
                                     @ ''. Expected 0x00 or 0x01'')))"
  using assms by (simp add: decodeInternal_def invalidMarker_def)

lemma decodeInternal_no_marker:
  assumes "validateSchema schema = Inr ()"
    and "decodeBase64Url L encoded = Inr []"
  shows "decodeInternal L encoded schema =
           Inl (DecodingError ''Invalid compression marker: undefined. Expected 0x00 or 0x01'')"
  using assms by (simp add: decodeInternal_def invalidMarker_def)

text \<open>
  C6. A token that \<^verbatim>\<open>encode\<close> returns is the base64url text of one marker byte followed
  by a payload: 0x01 and the compressed bytes when they are strictly shorter than the
  serialized bytes, otherwise 0x00 and the serialized bytes. For a schema that passes
  validation, \<^verbatim>\<open>decode\<close> decompresses the payload after marker 0x01, takes it as it is
  after marker 0x00, and returns a \<open>DecodingError\<close> for every other marker value and for
  a missing marker.
\<close>

theorem C6_compression_marker:
  "(encode L data schema ver = Inr token \<longrightarrow>
      (\<exists>binary compressed.
         encodeBinary L data schema ver = Inr binary \<and>
         compress L binary = Inr compressed \<and>
         token = encodeBase64Url L
                   ((if length compressed < length binary then 0x01 else 0x00)
                    # (if length compressed < length binary then compressed else binary)))) \<and>
   (validateSchema schema = Inr () \<and> decodeBase64Url L encoded = Inr (0x01 # rest) \<longrightarrow>
      decodeInternal L encoded schema =
        (case decompress L rest of
           Inl e \<Rightarrow> Inl e
         | Inr binary \<Rightarrow> decodeBinary L schema binary)) \<and>
   (validateSchema schema = Inr () \<and> decodeBase64Url L encoded = Inr (0x00 # rest) \<longrightarrow>
      decodeInternal L encoded schema = decodeBinary L schema rest) \<and>
   (validateSchema schema = Inr () \<and> decodeBase64Url L encoded = Inr (marker # rest) \<and>
    marker \<noteq> 0x00 \<and> marker \<noteq> 0x01 \<longrightarrow>
      decodeInternal L encoded schema =
        Inl (DecodingError (''Invalid compression marker: '' @ stringOfNat (unat marker)
                            @ ''. Expected 0x00 or 0x01''))) \<and>
   (validateSchema schema = Inr () \<and> decodeBase64Url L encoded = Inr [] \<longrightarrow>
      decodeInternal L encoded schema =
        Inl (DecodingError ''Invalid compression marker: undefined. Expected 0x00 or 0x01''))"
  using encodeInternal_Inr[of L data schema ver token]
        decodeInternal_marker[of schema L encoded]
        decodeInternal_no_marker[of schema L encoded]
  by (simp add: encode_def)



theorem C6_compression_marker_witness:
  "encode ref_libs longName schemaV1 1 = Inr ''AQESARgYYQ'' \<and>
   (\<exists>binary compressed.
      encodeBinary ref_libs longName schemaV1 1 = Inr binary \<and>
      compress ref_libs binary = Inr compressed \<and>
      ''AQESARgYYQ'' = encodeBase64Url ref_libs
                ((if length compressed < length binary then 0x01 else 0x00)
                 # (if length compressed < length binary then compressed else binary))) \<and>
   validateSchema schemaV1 = Inr () \<and>
   decodeBase64Url ref_libs ''AQESARgYYQ'' = Inr (0x01 # [1, 18, 1, 24, 24, 97]) \<and>
   decodeInternal ref_libs ''AQESARgYYQ'' schemaV1 =
     (case decompress ref_libs [1, 18, 1, 24, 24, 97] of
        Inl e \<Rightarrow> Inl e
      | Inr binary \<Rightarrow> decodeBinary ref_libs schemaV1 binary) \<and>
   decodeInternal ref_libs ''AQESARgYYQ'' schemaV1 = Inr (longName, 1) \<and>
   decodeBase64Url ref_libs ''ABIFQWxpY2U'' = Inr (0x00 # [18, 5, 65, 108, 105, 99, 101]) \<and>
   decodeInternal ref_libs ''ABIFQWxpY2U'' schemaV1 =
     decodeBinary ref_libs schemaV1 [18, 5, 65, 108, 105, 99, 101] \<and>
   decodeBase64Url ref_libs ''invalid-data'' =
     Inr (138 # [123, 218, 150, 39, 126, 117, 171, 90]) \<and>
   (138 :: byte) \<noteq> 0x00 \<and> (138 :: byte) \<noteq> 0x01 \<and>
   decodeInternal ref_libs ''invalid-data'' schemaV1 =
     Inl (DecodingError ''Invalid compression marker: 138. Expected 0x00 or 0x01'') \<and>
   decodeBase64Url ref_libs [] = Inr [] \<and>
   decodeInternal ref_libs [] schemaV1 =
     Inl (DecodingError ''Invalid compression marker: undefined. Expected 0x00 or 0x01'')"
proof -
  have enc: "encode ref_libs longName schemaV1 1 = Inr ''AQESARgYYQ''"
    by code_simp
  have ok: "validateSchema schemaV1 = Inr ()"
    by code_simp
  have b1: "decodeBase64Url ref_libs ''AQESARgYYQ'' = Inr (0x01 # [1, 18, 1, 24, 24, 97])"
    by code_simp
  have b0: "decodeBase64Url ref_libs ''ABIFQWxpY2U'' = Inr (0x00 # [18, 5, 65, 108, 105, 99, 101])"
    by code_simp
  have bad: "decodeBase64Url ref_libs ''invalid-data'' =
               Inr (138 # [123, 218, 150, 39, 126, 117, 171, 90])"
    by code_simp
  have none: "decodeBase64Url ref_libs [] = Inr []"
    by code_simp
  have shown: "stringOfNat (unat (138 :: byte)) = ''138''"
    by code_simp
  have full: "decodeInternal ref_libs ''AQESARgYYQ'' schemaV1 = Inr (longName, 1)"
    by code_simp
  note c =
    C6_compression_marker[of ref_libs longName schemaV1 1 "''AQESARgYYQ''" "''AQESARgYYQ''"
                             "[1, 18, 1, 24, 24, 97]" 138]
    C6_compression_marker[of ref_libs longName schemaV1 1 "''AQESARgYYQ''" "''ABIFQWxpY2U''"
                             "[18, 5, 65, 108, 105, 99, 101]" 138]
    C6_compression_marker[of ref_libs longName schemaV1 1 "''AQESARgYYQ''" "''invalid-data''"
                             "[123, 218, 150, 39, 126, 117, 171, 90]" 138]
    C6_compression_marker[of ref_libs longName schemaV1 1 "''AQESARgYYQ''" "[]" "[]" 138]
  show ?thesis
    using c enc ok b1 b0 bad none shown full by simp
qed

text \<open>
  C10. \<^verbatim>\<open>getVersion\<close> is total: whenever decoding fails, for whatever reason, it returns
  1, and otherwise the decoded version. In particular it returns 1 for a schema that uses
  the reserved field, for text that does not decode as base64url, for a marker byte other
  than 0x00 and 0x01, for a payload that does not decompress, and when the protobuf
  bytes do not decode or the decoded value fails the schema.
\<close>

theorem C10_getVersion_total:
  "(decodeWithVersion L encoded schema = Inl e \<longrightarrow> getVersion L encoded schema = 1) \<and>
   (decodeWithVersion L encoded schema = Inr (data, v) \<longrightarrow> getVersion L encoded schema = v) \<and>
   (fst (hasReservedField schema {}) \<longrightarrow> getVersion L encoded schema = 1) \<and>
   (decodeBase64Url L encoded = Inl e \<longrightarrow> getVersion L encoded schema = 1) \<and>
   (decodeBase64Url L encoded = Inr (marker # rest) \<and> marker \<noteq> 0x00 \<and> marker \<noteq> 0x01
      \<longrightarrow> getVersion L encoded schema = 1) \<and>
   (decodeBase64Url L encoded = Inr [] \<longrightarrow> getVersion L encoded schema = 1) \<and>
   (decodeBase64Url L encoded = Inr (0x01 # rest) \<and> decompress L rest = Inl e
      \<longrightarrow> getVersion L encoded schema = 1) \<and>
   (decodeBase64Url L encoded = Inr (0x00 # rest) \<and> zodToProtobuf L schema = Inr pbType \<and>
    pb_decode L pbType rest = Inl e
      \<longrightarrow> getVersion L encoded schema = 1) \<and>
   (decodeBase64Url L encoded = Inr (0x00 # rest) \<and> zodToProtobuf L schema = Inr pbType \<and>
    pb_decode L pbType rest = Inr message \<and>
    getProp (pb_toObject L pbType message) RESERVED_FIELD = JUndefined \<and>
    zod_parse L schema (pb_toObject L pbType message) = Inl e
      \<longrightarrow> getVersion L encoded schema = 1)"
  by (auto simp: getVersion_def decodeWithVersion_def decodeInternal_def decodeBinary_def
                 extractVersion_def validateSchema_def
           split: sum.splits list.splits)

theorem C10_getVersion_total_witness:
  "decodeWithVersion ref_libs ''invalid-data'' schemaV1 =
     Inl (DecodingError ''Invalid compression marker: 138. Expected 0x00 or 0x01'') \<and>
   getVersion ref_libs ''invalid-data'' schemaV1 = 1 \<and>
   decodeWithVersion ref_libs ''AAgDEgVBbGljZQ'' schemaV1 = Inr (alice, 3) \<and>
   getVersion ref_libs ''AAgDEgVBbGljZQ'' schemaV1 = 3 \<and>
   fst (hasReservedField reservedSchema {}) \<and>
   getVersion ref_libs ''AAgDEgVBbGljZQ'' reservedSchema = 1 \<and>
   decodeBase64Url ref_libs ''AQU'' = Inr (0x01 # [5]) \<and>
   decompress ref_libs [5] = Inl (CompressionError ''Decompression failed'') \<and>
   getVersion ref_libs ''AQU'' schemaV1 = 1 \<and>
   decodeBase64Url ref_libs ''ABIFQQ'' = Inr (0x00 # [18, 5, 65]) \<and>
   getVersion ref_libs ''ABIFQQ'' schemaV1 = 1 \<and>
   decodeBase64Url ref_libs ''AA'' = Inr (0x00 # []) \<and>
   getVersion ref_libs ''AA'' schemaV1 = 1"
proof -
  let ?T = "\<lparr> typeName = ''EncodedState'',
               typeFields = [Field ''_encodedStateVersion'' 1 ''uint32'' Optional,
                             Field ''name'' 2 ''string'' NoRule],
               rootTypes = [Type ''EncodedState''
                              [Field ''_encodedStateVersion'' 1 ''uint32'' Optional,
                               Field ''name'' 2 ''string'' NoRule]] \<rparr>"
  have bad: "decodeWithVersion ref_libs ''invalid-data'' schemaV1 =
               Inl (DecodingError ''Invalid compression marker: 138. Expected 0x00 or 0x01'')"
    by code_simp
  have good: "decodeWithVersion ref_libs ''AAgDEgVBbGljZQ'' schemaV1 = Inr (alice, 3)"
    by code_simp
  have reserved: "fst (hasReservedField reservedSchema {})"
    by code_simp
  have b1: "decodeBase64Url ref_libs ''AQU'' = Inr (0x01 # [5])"
    and z: "decompress ref_libs [5] = Inl (CompressionError ''Decompression failed'')"
    and b2: "decodeBase64Url ref_libs ''ABIFQQ'' = Inr (0x00 # [18, 5, 65])"
    and T: "zodToProtobuf ref_libs schemaV1 = Inr ?T"
    and corrupt: "pb_decode ref_libs ?T [18, 5, 65] = Inl (ExternalError ''index out of range'')"
    and b3: "decodeBase64Url ref_libs ''AA'' = Inr (0x00 # [])"
    and empty: "pb_decode ref_libs ?T [] = Inr (JObj [])"
    and noversion: "getProp (pb_toObject ref_libs ?T (JObj [])) RESERVED_FIELD = JUndefined"
    and invalid: "zod_parse ref_libs schemaV1 (pb_toObject ref_libs ?T (JObj []))
                  = Inl (ZodError ''Expected string'')"
    by code_simp+
  have v1: "getVersion ref_libs ''invalid-data'' schemaV1 = 1"
    using C10_getVersion_total[of ref_libs "''invalid-data''" schemaV1
            "DecodingError ''Invalid compression marker: 138. Expected 0x00 or 0x01''"]
          bad by simp
  have v2: "getVersion ref_libs ''AAgDEgVBbGljZQ'' schemaV1 = 3"
    using C10_getVersion_total[of ref_libs "''AAgDEgVBbGljZQ''" schemaV1 _ alice 3] good
    by simp
  have v3: "getVersion ref_libs ''AAgDEgVBbGljZQ'' reservedSchema = 1"
    using C10_getVersion_total[of ref_libs "''AAgDEgVBbGljZQ''" reservedSchema] reserved
    by simp
  have v4: "getVersion ref_libs ''AQU'' schemaV1 = 1"
    using C10_getVersion_total[of ref_libs "''AQU''" schemaV1
            "CompressionError ''Decompression failed''" _ _ _ "[5]"] b1 z
    by simp
  have v5: "getVersion ref_libs ''ABIFQQ'' schemaV1 = 1"
    using C10_getVersion_total[of ref_libs "''ABIFQQ''" schemaV1
            "ExternalError ''index out of range''" _ _ _ "[18, 5, 65]" ?T] b2 T corrupt
    by simp
  have v6: "getVersion ref_libs ''AA'' schemaV1 = 1"
    using C10_getVersion_total[of ref_libs "''AA''" schemaV1
            "ZodError ''Expected string''" _ _ _ "[]" ?T "JObj []"] b3 T empty noversion invalid
    by simp
  show ?thesis
    using bad good reserved b1 z b2 b3 v1 v2 v3 v4 v5 v6 by simp
qed

section \<open>Version domain\<close>

lemma encode_succeeds:
  assumes "validateSchema schema = Inr ()"
    and "zod_parse L schema data = Inr validated"
    and "isObjectNotArray validated"
    and "zodToProtobuf L schema = Inr pbType"
    and "pb_fromObject L pbType (withVersion validated ver) = Inr message"
    and "pb_encode L pbType message = Inr binary"
    and "compress L binary = Inr deflated"
  shows "encode L data schema ver = Inr (encodeBase64Url L (finalBinary deflated binary))"
  using assms by (simp add: encode_def encodeInternal_def encodeBinary_def)

text \<open>
  C4, as amended. \<^verbatim>\<open>encodeWithHeader\<close> rejects every version outside 0..1023, in
  particular 1024 and -1, with the error "Version must be 0-1023", for every payload
  and every combination of flags. The public \<^verbatim>\<open>encode\<close> does not frame with this header
  and has no check of the version range: it stores the version in the reserved field of
  the object it serializes and succeeds whenever validation, the serializer and the
  compressor succeed.
\<close>

theorem C4_version_domain:
  "(ver < 0 \<or> 1023 < ver \<longrightarrow>
      encodeWithHeader pl ver options = Inl (GenericError ''Version must be 0-1023'')) \<and>
   encodeWithHeader pl 1024 options = Inl (GenericError ''Version must be 0-1023'') \<and>
   encodeWithHeader pl (- 1) options = Inl (GenericError ''Version must be 0-1023'') \<and>
   (validateSchema schema = Inr () \<and> zod_parse L schema data = Inr validated \<and>
    isObjectNotArray validated \<and> zodToProtobuf L schema = Inr pbType \<and>
    pb_fromObject L pbType (withVersion validated ver) = Inr message \<and>
    pb_encode L pbType message = Inr binary \<and> compress L binary = Inr deflated \<longrightarrow>
      encode L data schema ver = Inr (encodeBase64Url L (finalBinary deflated binary)))"
  using encode_succeeds[of schema L data validated pbType ver message binary deflated]
  by (auto simp: encodeWithHeader_def)

theorem C4_version_domain_witness:
  "((1024::int) < 0 \<or> (1023::int) < 1024) \<and>
   encodeWithHeader [1, 2, 3] 1024
     \<lparr> compressed = True, stringDictionary = Some True, booleanPacking = None \<rparr>
     = Inl (GenericError ''Version must be 0-1023'') \<and>
   encodeWithHeader [1, 2, 3] (- 1)
     \<lparr> compressed = True, stringDictionary = Some True, booleanPacking = None \<rparr>
     = Inl (GenericError ''Version must be 0-1023'') \<and>
   validateSchema schemaV1 = Inr () \<and>
   zod_parse ref_libs schemaV1 alice = Inr alice \<and>
   isObjectNotArray alice \<and>
   pb_fromObject ref_libs
     \<lparr> typeName = ''EncodedState'',
       typeFields = [Field ''_encodedStateVersion'' 1 ''uint32'' Optional,
                     Field ''name'' 2 ''string'' NoRule],
       rootTypes = [Type ''EncodedState''
                      [Field ''_encodedStateVersion'' 1 ''uint32'' Optional,
                       Field ''name'' 2 ''string'' NoRule]] \<rparr>
     (withVersion alice 1024)
     = Inr (JObj [(''_encodedStateVersion'', JNum 1024), (''name'', JStr ''Alice'')]) \<and>
   encode ref_libs alice schemaV1 1024 =
     Inr (encodeBase64Url ref_libs
            (finalBinary [1, 8, 1, 128, 1, 8, 1, 18, 1, 5, 1, 65, 1, 108, 1, 105, 1, 99, 1, 101]
                         [8, 128, 8, 18, 5, 65, 108, 105, 99, 101]))"
proof -
  let ?T = "\<lparr> typeName = ''EncodedState'',
               typeFields = [Field ''_encodedStateVersion'' 1 ''uint32'' Optional,
                             Field ''name'' 2 ''string'' NoRule],
               rootTypes = [Type ''EncodedState''
                              [Field ''_encodedStateVersion'' 1 ''uint32'' Optional,
                               Field ''name'' 2 ''string'' NoRule]] \<rparr>"
  let ?msg = "JObj [(''_encodedStateVersion'', JNum 1024), (''name'', JStr ''Alice'')]"
  have ok: "validateSchema schemaV1 = Inr ()"
    and parsed: "zod_parse ref_libs schemaV1 alice = Inr alice"
    and obj: "isObjectNotArray alice"
    and T: "zodToProtobuf ref_libs schemaV1 = Inr ?T"
    and msg: "pb_fromObject ref_libs ?T (withVersion alice 1024) = Inr ?msg"
    and bin: "pb_encode ref_libs ?T ?msg = Inr [8, 128, 8, 18, 5, 65, 108, 105, 99, 101]"
    and cmp: "compress ref_libs [8, 128, 8, 18, 5, 65, 108, 105, 99, 101]
              = Inr [1, 8, 1, 128, 1, 8, 1, 18, 1, 5, 1, 65, 1, 108, 1, 105, 1, 99, 1, 101]"
    by code_simp+
  show ?thesis
    using C4_version_domain[of 1024 "[1, 2, 3]"
            "\<lparr> compressed = True, stringDictionary = Some True, booleanPacking = None \<rparr>"
            schemaV1 ref_libs alice alice ?T ?msg
            "[8, 128, 8, 18, 5, 65, 108, 105, 99, 101]"
            "[1, 8, 1, 128, 1, 8, 1, 18, 1, 5, 1, 65, 1, 108, 1, 105, 1, 99, 1, 101]"]
          ok parsed obj T msg bin cmp
    by simp
qed

text \<open>
  The claim as stated fails for the public entry point: with the reference libraries,
  \<^verbatim>\<open>encode\<close> at version 1024 and at version -1 returns a token, and the token of version
  1024 decodes with version 1024.
\<close>

theorem C4_version_domain_counterexample:
  "encode ref_libs alice schemaV1 1024 = Inr ''AAiACBIFQWxpY2U'' \<and>
   encode ref_libs alice schemaV1 (- 1) = Inr ''AAj_____DxIFQWxpY2U'' \<and>
   decodeWithVersion ref_libs ''AAiACBIFQWxpY2U'' schemaV1 = Inr (alice, 1024)"
  by code_simp

section \<open>Reserved field\<close>

lemma subschemas_size:
  "n \<in> set (subschemas s) \<Longrightarrow> size n \<le> size s"
  "n \<in> set (subschemas_shape sh) \<Longrightarrow> size n \<le> size_list (size_prod (\<lambda>_. 0) size) sh"
  "n \<in> set (subschemas_list xs) \<Longrightarrow> size n \<le> size_list size xs"
  by (induction s and sh and xs rule: subschemas_subschemas_shape_subschemas_list.induct)
     (auto)

lemma subschemas_self: "s \<in> set (subschemas s)"
  by (cases s) simp_all

lemma subschemas_below: "n \<in> set (tl (subschemas s)) \<Longrightarrow> n \<in> set (subschemas s)"
  by (cases s) simp_all

lemma below_smaller: "n \<in> set (tl (subschemas s)) \<Longrightarrow> size n < size s"
  by (cases s) (auto dest: subschemas_size)

lemma visitedSound_seq:
  assumes "visitedSound U V r1 c1"
    and "\<not> c1 \<Longrightarrow> visitedSound U (snd r1) (f (snd r1)) c2"
  shows "visitedSound U V (case r1 of (True, v') \<Rightarrow> (True, v') | (False, v') \<Rightarrow> f v') (c1 \<or> c2)"
proof (cases r1)
  case (Pair b v')
  show ?thesis
  proof (cases c1)
    case True
    with assms(1) Pair show ?thesis by (simp add: visitedSound_def)
  next
    case False
    with assms(1) Pair have b: "b = False" by (simp add: visitedSound_def)
    from assms(2)[OF False] Pair have second: "visitedSound U v' (f v') c2" by simp
    from assms(1) False Pair have first: "V \<subseteq> v'"
      "\<forall>n\<in>U. oid n \<in> v' \<longrightarrow> oid n \<notin> V \<longrightarrow> \<not> containsReservedField n"
      by (simp_all add: visitedSound_def)
    show ?thesis
      using first second False unfolding Pair b visitedSound_def
      by (auto split: prod.splits)
  qed
qed

lemma visitedSound_pre:
  assumes "visitedSound U V r c" and "\<not> c" and "set ns \<subseteq> U"
    and "\<forall>n\<in>set ns. oid n \<in> V \<longrightarrow> \<not> containsReservedField n"
  shows "\<forall>n\<in>set ns. oid n \<in> snd r \<longrightarrow> \<not> containsReservedField n"
  using assms unfolding visitedSound_def by blast

declare hasReservedField.simps [simp del]

lemma hasReservedField_sound:
  fixes U :: "zod set"
  assumes ident: "\<And>a b. a \<in> U \<Longrightarrow> b \<in> U \<Longrightarrow> oid a = oid b \<Longrightarrow> a = b"
  shows "set (subschemas s) \<subseteq> U \<Longrightarrow>
         \<forall>n\<in>set (subschemas s). oid n \<in> V \<longrightarrow> \<not> containsReservedField n \<Longrightarrow>
         visitedSound U V (hasReservedField s V) (containsReservedField s)"
    and "set (subschemas s') \<subseteq> U \<Longrightarrow>
         \<forall>n\<in>set (tl (subschemas s')). oid n \<in> V' \<longrightarrow> \<not> containsReservedField n \<Longrightarrow>
         visitedSound U V' (hasReservedField_node s' V') (containsReservedField s')"
    and "set (subschemas_shape sh) \<subseteq> U \<Longrightarrow>
         \<forall>n\<in>set (subschemas_shape sh). oid n \<in> V'' \<longrightarrow> \<not> containsReservedField n \<Longrightarrow>
         visitedSound U V'' (hasReservedField_shape sh V'') (containsReservedField_shape sh)"
    and "set (subschemas_list xs) \<subseteq> U \<Longrightarrow>
         \<forall>n\<in>set (subschemas_list xs). oid n \<in> V''' \<longrightarrow> \<not> containsReservedField n \<Longrightarrow>
         visitedSound U V''' (hasReservedField_some xs V''') (containsReservedField_any xs)"
proof (induction s V and s' V' and sh V'' and xs V'''
       rule: hasReservedField_hasReservedField_node_hasReservedField_shape_hasReservedField_some.induct)
  case (1 schema visited)
  have self: "schema \<in> U" using "1.prems"(1) subschemas_self[of schema] by auto
  show ?case
  proof (cases "oid schema \<in> visited")
    case True
    with "1.prems"(2) subschemas_self[of schema] have "\<not> containsReservedField schema"
      by blast
    with True show ?thesis by (simp add: visitedSound_def hasReservedField.simps)
  next
    case False
    have below: "\<forall>n\<in>set (tl (subschemas schema)).
                   oid n \<in> insert (oid schema) visited \<longrightarrow> \<not> containsReservedField n"
    proof (intro ballI impI)
      fix n assume n: "n \<in> set (tl (subschemas schema))"
        and v: "oid n \<in> insert (oid schema) visited"
      from n have nU: "n \<in> U" and nS: "n \<in> set (subschemas schema)"
        using "1.prems"(1) subschemas_below[of n schema] by auto
      from below_smaller[OF n] have "n \<noteq> schema" by auto
      with ident[OF nU self] have "oid n \<noteq> oid schema" by auto
      with v have "oid n \<in> visited" by simp
      with "1.prems"(2) nS show "\<not> containsReservedField n" by blast
    qed
    from "1.IH"[OF False "1.prems"(1) below]
    have node: "visitedSound U (insert (oid schema) visited)
                  (hasReservedField_node schema (insert (oid schema) visited))
                  (containsReservedField schema)" .
    show ?thesis
    proof (cases "containsReservedField schema")
      case True
      with node False show ?thesis by (simp add: visitedSound_def hasReservedField.simps)
    next
      case clean: False
      have "\<not> containsReservedField n"
        if "n \<in> U" "oid n \<in> snd (hasReservedField_node schema (insert (oid schema) visited))"
           "oid n \<notin> visited" for n
      proof (cases "oid n = oid schema")
        case True
        with ident[OF that(1) self] clean show ?thesis by simp
      next
        case False
        with node clean that show ?thesis by (simp add: visitedSound_def)
      qed
      with node clean False show ?thesis
        by (auto simp: visitedSound_def hasReservedField.simps)
    qed
  qed
next
  case (2 uu shape visited)
  show ?case
  proof (cases "RESERVED_FIELD \<in> set (map fst shape)")
    case True
    then show ?thesis by (simp add: visitedSound_def)
  next
    case False
    with "2.IH"[OF False] "2.prems" show ?thesis by simp
  qed
next
  case (3 uv element visited)
  then show ?case by simp
next
  case (4 uw inner visited)
  then show ?case by simp
next
  case (5 ux inner visited)
  then show ?case by simp
next
  case (6 uy inner visited)
  then show ?case by simp
next
  case (7 uz options visited)
  then show ?case by simp
next
  case (8 va options visited)
  then show ?case by simp
next
  case (9 vb left right visited)
  from "9.prems" have first: "visitedSound U visited (hasReservedField left visited)
                                (containsReservedField left)"
    by (intro "9.IH"(1)) auto
  have second: "visitedSound U (snd (hasReservedField left visited))
                  (hasReservedField right (snd (hasReservedField left visited)))
                  (containsReservedField right)" if clean: "\<not> containsReservedField left"
  proof -
    from first clean have f: "fst (hasReservedField left visited) = False"
      by (simp add: visitedSound_def)
    have pre: "\<forall>n\<in>set (subschemas right).
                 oid n \<in> snd (hasReservedField left visited) \<longrightarrow> \<not> containsReservedField n"
      using visitedSound_pre[OF first clean, of "subschemas right"] "9.prems" by auto
    show ?thesis
      using "9.IH"(2)[OF surjective_pairing[symmetric] f _ pre] "9.prems"(1) by auto
  qed
  from visitedSound_seq[of U visited "hasReservedField left visited" "containsReservedField left"
                           "hasReservedField right" "containsReservedField right",
                        OF first second]
  show ?case by simp
next
  case (10 vc keySchema valueSchema visited)
  from "10.prems" have "visitedSound U visited (hasReservedField valueSchema visited)
                          (containsReservedField valueSchema)"
    by (intro "10.IH") auto
  then show ?case by simp
next
  case (11 vd keyType valueType visited)
  from "11.prems" have first: "visitedSound U visited (hasReservedField keyType visited)
                                 (containsReservedField keyType)"
    by (intro "11.IH"(1)) auto
  have second: "visitedSound U (snd (hasReservedField keyType visited))
                  (hasReservedField valueType (snd (hasReservedField keyType visited)))
                  (containsReservedField valueType)" if clean: "\<not> containsReservedField keyType"
  proof -
    from first clean have f: "fst (hasReservedField keyType visited) = False"
      by (simp add: visitedSound_def)
    have pre: "\<forall>n\<in>set (subschemas valueType).
                 oid n \<in> snd (hasReservedField keyType visited) \<longrightarrow> \<not> containsReservedField n"
      using visitedSound_pre[OF first clean, of "subschemas valueType"] "11.prems" by auto
    show ?thesis
      using "11.IH"(2)[OF surjective_pairing[symmetric] f _ pre] "11.prems"(1) by auto
  qed
  from visitedSound_seq[of U visited "hasReservedField keyType visited"
                           "containsReservedField keyType"
                           "hasReservedField valueType" "containsReservedField valueType",
                        OF first second]
  show ?case by simp
next
  case (12 ve items visited)
  then show ?case by simp
next
  case (13 vf inner visited)
  then show ?case by simp
next
  case (14 vg inp out visited)
  from "14.prems" have first: "visitedSound U visited (hasReservedField inp visited)
                                 (containsReservedField inp)"
    by (intro "14.IH"(1)) auto
  have second: "visitedSound U (snd (hasReservedField inp visited))
                  (hasReservedField out (snd (hasReservedField inp visited)))
                  (containsReservedField out)" if clean: "\<not> containsReservedField inp"
  proof -
    from first clean have f: "fst (hasReservedField inp visited) = False"
      by (simp add: visitedSound_def)
    have pre: "\<forall>n\<in>set (subschemas out).
                 oid n \<in> snd (hasReservedField inp visited) \<longrightarrow> \<not> containsReservedField n"
      using visitedSound_pre[OF first clean, of "subschemas out"] "14.prems" by auto
    show ?thesis
      using "14.IH"(2)[OF surjective_pairing[symmetric] f _ pre] "14.prems"(1) by auto
  qed
  from visitedSound_seq[of U visited "hasReservedField inp visited" "containsReservedField inp"
                           "hasReservedField out" "containsReservedField out",
                        OF first second]
  show ?case by simp
next
  case (15 vh getter visited)
  then show ?case by simp
next
  case (18 key field rest visited)
  from "18.prems" have first: "visitedSound U visited (hasReservedField field visited)
                                 (containsReservedField field)"
    by (intro "18.IH"(1)) auto
  have second: "visitedSound U (snd (hasReservedField field visited))
                  (hasReservedField_shape rest (snd (hasReservedField field visited)))
                  (containsReservedField_shape rest)" if clean: "\<not> containsReservedField field"
  proof -
    from first clean have f: "fst (hasReservedField field visited) = False"
      by (simp add: visitedSound_def)
    have pre: "\<forall>n\<in>set (subschemas_shape rest).
                 oid n \<in> snd (hasReservedField field visited) \<longrightarrow> \<not> containsReservedField n"
      using visitedSound_pre[OF first clean, of "subschemas_shape rest"] "18.prems" by auto
    show ?thesis
      using "18.IH"(2)[OF surjective_pairing[symmetric] f _ pre] "18.prems"(1) by auto
  qed
  from visitedSound_seq[of U visited "hasReservedField field visited"
                           "containsReservedField field"
                           "hasReservedField_shape rest" "containsReservedField_shape rest",
                        OF first second]
  show ?case by simp
next
  case (20 option rest visited)
  from "20.prems" have first: "visitedSound U visited (hasReservedField option visited)
                                 (containsReservedField option)"
    by (intro "20.IH"(1)) auto
  have second: "visitedSound U (snd (hasReservedField option visited))
                  (hasReservedField_some rest (snd (hasReservedField option visited)))
                  (containsReservedField_any rest)" if clean: "\<not> containsReservedField option"
  proof -
    from first clean have f: "fst (hasReservedField option visited) = False"
      by (simp add: visitedSound_def)
    have pre: "\<forall>n\<in>set (subschemas_list rest).
                 oid n \<in> snd (hasReservedField option visited) \<longrightarrow> \<not> containsReservedField n"
      using visitedSound_pre[OF first clean, of "subschemas_list rest"] "20.prems" by auto
    show ?thesis
      using "20.IH"(2)[OF surjective_pairing[symmetric] f _ pre] "20.prems"(1) by auto
  qed
  from visitedSound_seq[of U visited "hasReservedField option visited"
                           "containsReservedField option"
                           "hasReservedField_some rest" "containsReservedField_any rest",
                        OF first second]
  show ?case by simp
qed (simp_all add: visitedSound_def)

lemma hasReservedField_iff:
  assumes "wellIdentified schema"
  shows "fst (hasReservedField schema {}) = containsReservedField schema"
proof -
  have ident: "a = b"
    if "a \<in> set (subschemas schema)" "b \<in> set (subschemas schema)" "oid a = oid b" for a b
    using assms that unfolding wellIdentified_def list_all_iff by blast
  have "visitedSound (set (subschemas schema)) {} (hasReservedField schema {})
          (containsReservedField schema)"
    by (rule hasReservedField_sound(1)[where U = "set (subschemas schema)"])
       (use ident in auto)
  then show ?thesis by (simp add: visitedSound_def)
qed


lemma validateSchema_clean:
  assumes "wellIdentified schema" and "\<not> containsReservedField schema"
  shows "validateSchema schema = Inr ()"
  using hasReservedField_iff[OF assms(1)] assms(2)
  by (simp add: validateSchema_def)



section \<open>Round trip\<close>











end
